theory Spec2Isabelle
  imports Complex_Main "HOL-Library.Signed_Division" "HOL-Library.Log_Nat"
begin

section \<open>Common data\<close>

text \<open>
  The chain identifiers that the swap-connector table of
  \<^verbatim>\<open>swap-connector-implementation.service.ts\<close> lists as keys, in the order of the
  object literal.
\<close>

datatype ChainId =
    Ethereum | BSC | Heco | Polygon | Arbitrum | Avalanche | AvalancheTest | Kovan
  | BSCTest | HecoTest | PolygonTest | ArbitrumTest | Solana | Fantom | Linea | Base
  | Optimism

text \<open>The keys of \<^verbatim>\<open>BLOCK_CONFIRMATIONS_HARD_CAPS\<close> (the enum \<^verbatim>\<open>SupportedChain\<close>).\<close>

datatype SupportedChain =
    S_Arbitrum | S_Avalanche | S_BSC | S_Ethereum | S_Fantom | S_Linea | S_Base
  | S_Optimism | S_Polygon | S_Solana

text \<open>A token address is a byte buffer; only its identity matters here.\<close>

type_synonym Address = string

text \<open>
  Every \<^verbatim>\<open>throw\<close> and every rejected promise of the modelled code is a value of this
  type: \<open>UnableToSetThreshold\<close> is the error of \<^verbatim>\<open>getSrcConstraintsPerOrderValue\<close>,
  \<open>MissingOrderData\<close> is \<^verbatim>\<open>"Unexpected: missing data for order"\<close>,
  \<open>UnexpectedOrderStatus\<close> is \<^verbatim>\<open>"Unexpected order status"\<close>, and
  \<open>ExternalFailure\<close> stands for an exception raised by an injected collaborator
  (RPC client, price service, swap connector, signer).
\<close>

datatype error =
  UnableToSetThreshold | MissingOrderData | UnexpectedOrderStatus | ExternalFailure


section \<open>Executor.resyncDecimals\<close>

text \<open>
  \<^verbatim>\<open>client.getDecimals\<close> is an injected capability, passed as a parameter; it may fail.
  Amounts are \<^verbatim>\<open>bigint\<close>, modelled as \<open>int\<close>; the \<^verbatim>\<open>/\<close> of \<^verbatim>\<open>bigint\<close> truncates towards
  zero, which is \<open>sdiv\<close> (and not the flooring \<open>div\<close> of HOL).
\<close>

definition resyncDecimals ::
  "(ChainId \<Rightarrow> Address \<Rightarrow> error + nat) \<Rightarrow>
   ChainId \<Rightarrow> Address \<Rightarrow> int \<Rightarrow> ChainId \<Rightarrow> Address \<Rightarrow> error + int" where
  "resyncDecimals getDecimals chainIn tokenIn amountIn chainOut tokenOut =
     (case getDecimals chainIn tokenIn of
        Inl e \<Rightarrow> Inl e
      | Inr decimalsIn \<Rightarrow>
          (case getDecimals chainOut tokenOut of
             Inl e \<Rightarrow> Inl e
           | Inr decimalsOut \<Rightarrow>
               if decimalsIn = decimalsOut then Inr amountIn
               else
                 let delta = int decimalsIn - int decimalsOut in
                 if delta > 0 then Inr (amountIn sdiv 10 ^ nat delta)
                 else Inr (amountIn * 10 ^ nat (- delta))))"


section \<open>Executor.getSrcConstraintsPerOrderValue\<close>

definition BLOCK_CONFIRMATIONS_HARD_CAPS :: "SupportedChain \<Rightarrow> int" where
  "BLOCK_CONFIRMATIONS_HARD_CAPS c =
     (case c of
        S_Arbitrum \<Rightarrow> 15
      | S_Avalanche \<Rightarrow> 15
      | S_BSC \<Rightarrow> 15
      | S_Ethereum \<Rightarrow> 12
      | S_Fantom \<Rightarrow> 15
      | S_Linea \<Rightarrow> 15
      | S_Base \<Rightarrow> 15
      | S_Optimism \<Rightarrow> 15
      | S_Polygon \<Rightarrow> 256
      | S_Solana \<Rightarrow> 32)"

text \<open>
  One entry of \<^verbatim>\<open>requiredConfirmationsThresholds\<close>: the threshold in USD and the two
  optional numbers (\<open>None\<close> is \<^verbatim>\<open>undefined\<close>).
\<close>

record RequiredConfirmationsThreshold =
  thresholdAmountInUSD :: real
  minBlockConfirmations :: "int option"
  fulfillmentDelay :: "int option"

text \<open>
  The \<^verbatim>\<open>constraints\<close> object of a chain: the thresholds (an absent array is the empty
  list, as \<^verbatim>\<open>|| []\<close> makes it) and the chain's default delay.
\<close>

record SrcConstraintsConfig =
  requiredConfirmationsThresholds :: "RequiredConfirmationsThreshold list"
  defaultFulfillmentDelay :: "int option"

record SrcConstraintPerOrderValue =
  upperThreshold :: real
  src_minBlockConfirmations :: int
  src_fulfillmentDelay :: int

text \<open>\<^verbatim>\<open>x || 0\<close> on an optional number: \<^verbatim>\<open>undefined\<close> and \<^verbatim>\<open>0\<close> are both falsy.\<close>

definition or_zero :: "int option \<Rightarrow> int" where
  "or_zero x = (case x of None \<Rightarrow> 0 | Some n \<Rightarrow> n)"

text \<open>\<^verbatim>\<open>primary?.fulfillmentDelay || default?.fulfillmentDelay || 0\<close>.\<close>

definition getSrcConstraints :: "int option \<Rightarrow> int option \<Rightarrow> int" where
  "getSrcConstraints primary dflt =
     (if or_zero primary \<noteq> 0 then or_zero primary
      else if or_zero dflt \<noteq> 0 then or_zero dflt
      else 0)"

text \<open>
  The callback of \<^verbatim>\<open>.map\<close>, which throws for a threshold at or above the hard cap. The
  first throw leaves the \<^verbatim>\<open>map\<close>, so the list is walked from the left.
\<close>

definition srcConstraintOf ::
  "SupportedChain \<Rightarrow> SrcConstraintsConfig \<Rightarrow> RequiredConfirmationsThreshold \<Rightarrow>
   error + SrcConstraintPerOrderValue" where
  "srcConstraintOf chain config constraint =
     (if BLOCK_CONFIRMATIONS_HARD_CAPS chain \<le> or_zero (minBlockConfirmations constraint)
      then Inl UnableToSetThreshold
      else Inr \<lparr> upperThreshold = thresholdAmountInUSD constraint,
                 src_minBlockConfirmations = or_zero (minBlockConfirmations constraint),
                 src_fulfillmentDelay =
                   getSrcConstraints (fulfillmentDelay constraint)
                     (defaultFulfillmentDelay config) \<rparr>)"

fun mapThresholds ::
  "SupportedChain \<Rightarrow> SrcConstraintsConfig \<Rightarrow> RequiredConfirmationsThreshold list \<Rightarrow>
   error + SrcConstraintPerOrderValue list" where
  "mapThresholds chain config [] = Inr []"
| "mapThresholds chain config (c # cs) =
     (case srcConstraintOf chain config c of
        Inl e \<Rightarrow> Inl e
      | Inr r \<Rightarrow>
          (case mapThresholds chain config cs of
             Inl e \<Rightarrow> Inl e
           | Inr rs \<Rightarrow> Inr (r # rs)))"

text \<open>
  The \<^verbatim>\<open>.sort\<close> by ascending upper bound is stable, as \<open>sort_key\<close> is.
\<close>

definition getSrcConstraintsPerOrderValue ::
  "SupportedChain \<Rightarrow> SrcConstraintsConfig \<Rightarrow> error + SrcConstraintPerOrderValue list" where
  "getSrcConstraintsPerOrderValue chain config =
     (case mapThresholds chain config (requiredConfirmationsThresholds config) of
        Inl e \<Rightarrow> Inl e
      | Inr rs \<Rightarrow> Inr (sort_key upperThreshold rs))"


section \<open>SwapConnectorImplementationService\<close>

datatype SwapConnector = OneInchV4Connector | OneInchV5Connector | JupiterConnectorV6

text \<open>
  The private table \<^verbatim>\<open>#connectors\<close> has one entry for every chain id, a connector or
  \<^verbatim>\<open>null\<close> (\<open>None\<close>). It is the whole state of the service.
\<close>

type_synonym connectors = "ChainId \<Rightarrow> SwapConnector option"

definition constructor_connectors :: connectors where
  "constructor_connectors c =
     (case c of
        Ethereum \<Rightarrow> Some OneInchV4Connector
      | BSC \<Rightarrow> Some OneInchV4Connector
      | Heco \<Rightarrow> None
      | Polygon \<Rightarrow> Some OneInchV4Connector
      | Arbitrum \<Rightarrow> Some OneInchV4Connector
      | Avalanche \<Rightarrow> Some OneInchV4Connector
      | AvalancheTest \<Rightarrow> None
      | Kovan \<Rightarrow> None
      | BSCTest \<Rightarrow> None
      | HecoTest \<Rightarrow> None
      | PolygonTest \<Rightarrow> None
      | ArbitrumTest \<Rightarrow> None
      | Solana \<Rightarrow> None
      | Fantom \<Rightarrow> Some OneInchV4Connector
      | Linea \<Rightarrow> Some OneInchV4Connector
      | Base \<Rightarrow> Some OneInchV5Connector
      | Optimism \<Rightarrow> Some OneInchV4Connector)"

definition initSolana :: "connectors \<Rightarrow> connectors" where
  "initSolana cs = cs(Solana := Some JupiterConnectorV6)"

text \<open>
  The numeric value of each chain id, as the enum \<^verbatim>\<open>ChainId\<close> of the client library
  declares it.
\<close>

definition chain_number :: "ChainId \<Rightarrow> nat" where
  "chain_number c =
     (case c of
        Ethereum \<Rightarrow> 1
      | BSC \<Rightarrow> 56
      | Heco \<Rightarrow> 128
      | Polygon \<Rightarrow> 137
      | Arbitrum \<Rightarrow> 42161
      | Avalanche \<Rightarrow> 43114
      | AvalancheTest \<Rightarrow> 43113
      | Kovan \<Rightarrow> 42
      | BSCTest \<Rightarrow> 97
      | HecoTest \<Rightarrow> 256
      | PolygonTest \<Rightarrow> 80001
      | ArbitrumTest \<Rightarrow> 421611
      | Solana \<Rightarrow> 7565164
      | Fantom \<Rightarrow> 250
      | Linea \<Rightarrow> 59144
      | Base \<Rightarrow> 8453
      | Optimism \<Rightarrow> 10)"

text \<open>
  \<^verbatim>\<open>Object.keys(this.#connectors)\<close>. The keys of the table are integers, which the
  engine lists in ascending numeric order, whatever the order of the object literal.
\<close>

definition connector_keys :: "ChainId list" where
  "connector_keys =
     [Ethereum, Optimism, Kovan, BSC, BSCTest, Heco, Polygon, Fantom, HecoTest, Base,
      Arbitrum, AvalancheTest, Avalanche, Linea, PolygonTest, ArbitrumTest, Solana]"

definition getSupportedChains :: "connectors \<Rightarrow> ChainId list" where
  "getSupportedChains cs = filter (\<lambda>chainId. cs chainId \<noteq> None) connector_keys"

text \<open>
  The body of the \<^verbatim>\<open>forEach\<close> is the expression \<^verbatim>\<open>this.#connectors[chainId] === null\<close>:
  a comparison, whose value is dropped, and no assignment.
\<close>

definition forEach_body :: "ChainId \<Rightarrow> connectors \<Rightarrow> connectors" where
  "forEach_body chainId cs = (let unused = (cs chainId = None) in cs)"

definition setSupportedChains :: "ChainId list \<Rightarrow> connectors \<Rightarrow> connectors" where
  "setSupportedChains chainIds cs =
     fold forEach_body (filter (\<lambda>chainId. chainId \<notin> set chainIds) connector_keys) cs"

text \<open>\<^verbatim>\<open>#getConnector\<close> throws for a chain whose entry is \<^verbatim>\<open>null\<close>.\<close>

definition getConnector :: "connectors \<Rightarrow> ChainId \<Rightarrow> error + SwapConnector" where
  "getConnector cs chainId =
     (case cs chainId of None \<Rightarrow> Inl ExternalFailure | Some connector \<Rightarrow> Inr connector)"


section \<open>UniversalProcessor: data\<close>

datatype OrderInfoStatus =
  Created | ArchivalCreated | ArchivalFulfilled | Fulfilled | Cancelled | OtherStatus

text \<open>The \<^verbatim>\<open>finalization_info\<close> of a \<^verbatim>\<open>Created\<close> event, with the announced block count.\<close>

datatype FinalizationInfo = Revoked | Confirmed int | Finalized

text \<open>The on-chain state of an order, as the client reports it.\<close>

datatype OrderState = State_NotSet | State_Created | State_Fulfilled | State_Other

datatype ChainEngine = EVM | SolanaEngine

text \<open>
  Modelled from the spec: \<^verbatim>\<open>getEngineByChainId\<close> is imported from the client library; the
  spec distinguishes the EVM chains from Solana.
\<close>

definition getEngineByChainId :: "ChainId \<Rightarrow> ChainEngine" where
  "getEngineByChainId c = (if c = Solana then SolanaEngine else EVM)"

record OrderData =
  give_chainId :: ChainId
  give_tokenAddress :: Address
  give_amount :: int
  take_chainId :: ChainId
  take_tokenAddress :: Address
  take_amount :: int

text \<open>
  One range of \<^verbatim>\<open>usdAmountConfirmations\<close>, the list that \<^verbatim>\<open>processOrder\<close> reads from
  the configuration of the give chain. USD amounts are JavaScript numbers, taken here as
  real numbers.
\<close>

record UsdWorthRange =
  usdWorthFrom :: real
  usdWorthTo :: real
  range_minBlockConfirmations :: int

text \<open>
  \<^verbatim>\<open>IncomingOrderContext\<close>, a type declared outside these files: the event of the
  feed (\<^verbatim>\<open>orderInfo\<close>), the attempts counter and, of the \<^verbatim>\<open>context\<close>, the one piece of
  configuration that \<^verbatim>\<open>processOrder\<close> reads by itself (the list
  \<^verbatim>\<open>usdAmountConfirmations\<close> of the give chain). \<^verbatim>\<open>executeOrder\<close> passes
  \<^verbatim>\<open>{orderInfo, context}\<close> and no counter, so \<open>attempts\<close> may be \<^verbatim>\<open>undefined\<close>
  (\<open>None\<close>).
\<close>

record IncomingOrderContext =
  orderId :: string
  status :: OrderInfoStatus
  finalization_info :: FinalizationInfo
  orderData :: OrderData
  attempts :: "nat option"
  usdAmountConfirmations :: "UsdWorthRange list"

record UniversalProcessorParams =
  minProfitabilityBps :: int
  mempoolInterval :: int
  mempoolMaxDelayStep :: int
  batchUnlockSize :: int

record MempoolEntry =
  entry_params :: IncomingOrderContext
  entry_delay :: int

datatype BatchUnlockerCall = UnlockOrder string | AddOrder string

text \<open>
  The processor of one take chain. \<open>priorityQueue\<close> and \<open>queue\<close> are JavaScript
  \<^verbatim>\<open>Set\<close>s, which keep insertion order: lists without duplicates. \<open>batchUnlocker\<close> is
  the sequence of calls made to the Batch Unlocker. Two fields are not fields of the
  class: \<open>sentTransactions\<close> records every fulfill transaction handed to
  \<^verbatim>\<open>sendTransaction\<close> without an exception, with its gas limit, and \<open>inFlight\<close> is the
  order whose \<^verbatim>\<open>processOrder\<close> is suspended at an \<^verbatim>\<open>await\<close> (the in-flight slot).
\<close>

record UniversalProcessor =
  params :: UniversalProcessorParams
  takeChain :: ChainId
  priorityQueue :: "string list"
  queue :: "string list"
  incomingOrdersMap :: "string \<rightharpoonup> IncomingOrderContext"
  isLocked :: bool
  mempoolService :: "string \<rightharpoonup> MempoolEntry"
  batchUnlocker :: "BatchUnlockerCall list"
  sentTransactions :: "(string \<times> int option) list"
  inFlight :: "IncomingOrderContext option"

definition default_params :: UniversalProcessorParams where
  "default_params =
     \<lparr> minProfitabilityBps = 4, mempoolInterval = 60, mempoolMaxDelayStep = 30,
       batchUnlockSize = 10 \<rparr>"

definition new_processor :: "UniversalProcessorParams \<Rightarrow> ChainId \<Rightarrow> UniversalProcessor" where
  "new_processor ps chainId =
     \<lparr> params = ps, takeChain = chainId, priorityQueue = [], queue = [],
       incomingOrdersMap = Map.empty, isLocked = False, mempoolService = Map.empty,
       batchUnlocker = [], sentTransactions = [], inFlight = None \<rparr>"

subsection \<open>Sets in insertion order\<close>

definition set_add :: "'a \<Rightarrow> 'a list \<Rightarrow> 'a list" where
  "set_add x xs = (if x \<in> set xs then xs else xs @ [x])"

definition set_delete :: "'a \<Rightarrow> 'a list \<Rightarrow> 'a list" where
  "set_delete x xs = removeAll x xs"

text \<open>\<^verbatim>\<open>values().next().value\<close>: the oldest element, \<^verbatim>\<open>undefined\<close> for an empty set.\<close>

definition set_first :: "'a list \<Rightarrow> 'a option" where
  "set_first xs = (case xs of [] \<Rightarrow> None | x # rest \<Rightarrow> Some x)"

text \<open>Truthiness of a string that may be \<^verbatim>\<open>undefined\<close>: the empty string is falsy.\<close>

definition truthy :: "string option \<Rightarrow> bool" where
  "truthy v = (case v of None \<Rightarrow> False | Some s \<Rightarrow> s \<noteq> [])"

text \<open>
  \<^verbatim>\<open>params.attempts < n\<close>, which is false for a counter that is \<^verbatim>\<open>undefined\<close>; and the
  number of earlier attempts that the counter stands for.
\<close>

definition attempts_below :: "nat option \<Rightarrow> nat \<Rightarrow> bool" where
  "attempts_below a n = (case a of None \<Rightarrow> False | Some k \<Rightarrow> k < n)"

definition attempts_count :: "nat option \<Rightarrow> int" where
  "attempts_count a = (case a of None \<Rightarrow> 0 | Some k \<Rightarrow> int k)"

subsection \<open>The mempool service\<close>

text \<open>
  Modelled from the spec: the class \<^verbatim>\<open>MempoolService\<close> is not among the source files.
  The spec (4.7) keeps one record per order id; \<^verbatim>\<open>add_order(params, delay?)\<close> schedules
  the re-entry after \<^verbatim>\<open>delay ?? initial_interval + attempts * max_delay_step\<close> seconds and
  \<^verbatim>\<open>delete(order_id)\<close> cancels it. The clock and the firing of the timer are not part of
  the model; a fired order is one more call of \<^verbatim>\<open>process\<close>.
\<close>

definition mempool_addOrder ::
  "UniversalProcessorParams \<Rightarrow> IncomingOrderContext \<Rightarrow> int option \<Rightarrow>
   (string \<rightharpoonup> MempoolEntry) \<Rightarrow> (string \<rightharpoonup> MempoolEntry)" where
  "mempool_addOrder ps p delay m =
     m(orderId p \<mapsto>
        \<lparr> entry_params = p,
          entry_delay =
            (case delay of
               Some d \<Rightarrow> d
             | None \<Rightarrow>
                 mempoolInterval ps + attempts_count (attempts p) * mempoolMaxDelayStep ps) \<rparr>)"

definition mempool_delete :: "string \<Rightarrow> (string \<rightharpoonup> MempoolEntry) \<Rightarrow> (string \<rightharpoonup> MempoolEntry)" where
  "mempool_delete oid m = m(oid := None)"

text \<open>\<^verbatim>\<open>this.mempoolService.addOrder(params, delay)\<close> as a step of the processor.\<close>

definition addOrder :: "IncomingOrderContext \<Rightarrow> int option \<Rightarrow> UniversalProcessor \<Rightarrow> UniversalProcessor" where
  "addOrder p delay st =
     st\<lparr> mempoolService := mempool_addOrder (params st) p delay (mempoolService st) \<rparr>"

definition clearInternalQueues :: "string \<Rightarrow> UniversalProcessor \<Rightarrow> UniversalProcessor" where
  "clearInternalQueues oid st =
     st\<lparr> queue := set_delete oid (queue st),
         priorityQueue := set_delete oid (priorityQueue st),
         incomingOrdersMap := (incomingOrdersMap st)(oid := None),
         mempoolService := mempool_delete oid (mempoolService st) \<rparr>"


section \<open>UniversalProcessor.processOrder\<close>

text \<open>
  What one run of \<^verbatim>\<open>processOrder\<close> observes of its collaborators, one field for each
  awaited call, in the order of the calls; \<open>Inl\<close> is an exception. \<open>bucketFound\<close> is
  the outcome of \<^verbatim>\<open>buckets.find\<close>. \<open>usdWorth\<close> is the number computed from the price and
  the decimals of the give token. \<open>roughReserveDstAmount\<close> covers \<^verbatim>\<open>pickReserveToken\<close>,
  the two \<^verbatim>\<open>getDecimals\<close> calls and the conversion of the give amount.
  \<open>preEstimatedGas\<close> covers the three calls inside the first \<^verbatim>\<open>try\<close> (the preliminary
  fulfill transaction, \<^verbatim>\<open>getGasPrice\<close>, \<^verbatim>\<open>estimateGas\<close>) and returns the gas estimate.
\<close>

record ExpectedTakeAmount =
  isProfitable :: bool
  reserveDstTokenAgrees :: bool

record world =
  bucketFound :: bool
  takeOrderStatus :: "error + OrderState option"
  giveOrderStatus :: "error + OrderState option"
  usdWorth :: "error + real"
  roughReserveDstAmount :: "error + int"
  accountReserveBalance :: "error + int"
  preEstimatedGas :: "error + int"
  calculateExpectedTakeAmount :: "error + ExpectedTakeAmount"
  createOrderFullfillTx :: "error + unit"
  finalGas :: "error + int"
  sendTransaction :: "error + unit"
  waitIsOrderFulfilled :: "error + unit"

text \<open>
  Gas estimates are JavaScript numbers: IEEE doubles that hold an integer. The product
  \<^verbatim>\<open>evmFulfillGasLimit * EVM_FULFILL_GAS_MULTIPLIER\<close>, with the multiplier 1.25, is the
  double nearest to \<open>5 * g / 4\<close>, ties going to the even significand.
  \<open>double_of_quarters n\<close> is that double for the value \<open>n / 4\<close>, counted in quarters
  like \<open>n\<close>: the value itself when \<open>n\<close> has at most 53 bits, and otherwise \<open>n\<close>
  rounded to 53 significant bits. (The overflow of a double to infinity, beyond
  \<open>2 ^ 1024\<close>, is not modelled.)
\<close>

definition double_of_quarters :: "int \<Rightarrow> int" where
  "double_of_quarters n =
     (let m = \<bar>n\<bar>; s = nat (bitlen m - 53) in
      if s = 0 then n
      else
        let q = m div 2 ^ s; r = m mod 2 ^ s;
            q' = (if 2 ^ s < 2 * r \<or> (2 * r = 2 ^ s \<and> odd q) then q + 1 else q)
        in sgn n * (q' * 2 ^ s))"

text \<open>
  \<^verbatim>\<open>Math.round(evmFulfillGasLimit * EVM_FULFILL_GAS_MULTIPLIER)\<close>: \<^verbatim>\<open>Math.round\<close>
  gives the nearest integer and rounds a half upwards, which for \<open>v\<close> quarters is
  \<open>(v + 2) div 4\<close>.
\<close>

definition declared_gas_limit :: "int \<Rightarrow> int" where
  "declared_gas_limit g = (double_of_quarters (5 * g) + 2) div 4"

text \<open>
  \<^verbatim>\<open>evmFulfillGas > evmFulfillGasLimit!\<close>, where the limit is \<^verbatim>\<open>undefined\<close> when the
  pre-estimation was skipped; a comparison with \<^verbatim>\<open>undefined\<close> is false.
\<close>

definition gas_exceeds :: "int \<Rightarrow> int option \<Rightarrow> bool" where
  "gas_exceeds g limit = (case limit of None \<Rightarrow> False | Some l \<Rightarrow> g > l)"

text \<open>
  The tail of \<^verbatim>\<open>processOrder\<close>, from \<^verbatim>\<open>sendTransaction\<close> on. A function returns the
  exception it ends with, if any, and the state it leaves.
\<close>

definition processOrder_broadcast ::
  "bool \<Rightarrow> int option \<Rightarrow> world \<Rightarrow> IncomingOrderContext \<Rightarrow> UniversalProcessor \<Rightarrow>
   error option \<times> UniversalProcessor" where
  "processOrder_broadcast allowPlaceToMempool gas w p st =
     (case sendTransaction w of
        Inl e \<Rightarrow> (None, if allowPlaceToMempool then addOrder p None st else st)
      | Inr u \<Rightarrow>
          let st1 = st\<lparr> sentTransactions := sentTransactions st @ [(orderId p, gas)] \<rparr> in
          (case waitIsOrderFulfilled w of
             Inl e \<Rightarrow> (Some e, st1)
           | Inr u' \<Rightarrow>
               let st2 = clearInternalQueues (orderId p) st1 in
               (None, st2\<lparr> batchUnlocker := batchUnlocker st2 @ [AddOrder (orderId p)] \<rparr>)))"

text \<open>From \<^verbatim>\<open>// fulfill order\<close> on: the final transaction and its gas estimate.\<close>

definition processOrder_fulfill ::
  "bool \<Rightarrow> int option \<Rightarrow> world \<Rightarrow> IncomingOrderContext \<Rightarrow> UniversalProcessor \<Rightarrow>
   error option \<times> UniversalProcessor" where
  "processOrder_fulfill allowPlaceToMempool evmFulfillGasLimit w p st =
     (case createOrderFullfillTx w of
        Inl e \<Rightarrow> (Some e, st)
      | Inr u \<Rightarrow>
          if getEngineByChainId (take_chainId (orderData p)) = EVM then
            (case finalGas w of
               Inl e \<Rightarrow> (None, addOrder p None st)
             | Inr evmFulfillGas \<Rightarrow>
                 if gas_exceeds evmFulfillGas evmFulfillGasLimit
                 then (None,
                       addOrder p (if attempts_below (attempts p) 2 then Some 5 else None) st)
                 else processOrder_broadcast allowPlaceToMempool evmFulfillGasLimit w p st)
          else processOrder_broadcast allowPlaceToMempool None w p st)"

text \<open>\<^verbatim>\<open>calculateExpectedTakeAmount\<close> and the two checks of its result.\<close>

definition processOrder_profitability ::
  "bool \<Rightarrow> int option \<Rightarrow> world \<Rightarrow> IncomingOrderContext \<Rightarrow> UniversalProcessor \<Rightarrow>
   error option \<times> UniversalProcessor" where
  "processOrder_profitability allowPlaceToMempool evmFulfillGasLimit w p st =
     (case calculateExpectedTakeAmount w of
        Inl e \<Rightarrow> (Some e, st)
      | Inr r \<Rightarrow>
          if \<not> isProfitable r
          then (None, if allowPlaceToMempool then addOrder p None st else st)
          else if \<not> reserveDstTokenAgrees r then (None, st)
          else processOrder_fulfill allowPlaceToMempool evmFulfillGasLimit w p st)"

text \<open>
  From \<^verbatim>\<open>// perform rough estimation\<close> on: the balance check and, on an EVM take chain,
  the preliminary estimation that declares the gas limit.
\<close>

definition processOrder_estimate ::
  "bool \<Rightarrow> world \<Rightarrow> IncomingOrderContext \<Rightarrow> UniversalProcessor \<Rightarrow>
   error option \<times> UniversalProcessor" where
  "processOrder_estimate allowPlaceToMempool w p st =
     (case roughReserveDstAmount w of
        Inl e \<Rightarrow> (Some e, st)
      | Inr rough \<Rightarrow>
          (case accountReserveBalance w of
             Inl e \<Rightarrow> (Some e, st)
           | Inr balance \<Rightarrow>
               if balance < rough then (None, addOrder p None st)
               else if getEngineByChainId (takeChain st) = EVM then
                 (case preEstimatedGas w of
                    Inl e \<Rightarrow> (None, addOrder p None st)
                  | Inr g \<Rightarrow>
                      processOrder_profitability allowPlaceToMempool
                        (Some (declared_gas_limit g)) w p st)
               else processOrder_profitability allowPlaceToMempool None w p st))"

text \<open>
  The range lookup of the confirmation policy: \<^verbatim>\<open>Array.find\<close> returns the first range
  that satisfies the predicate.
\<close>

definition find_range :: "UsdWorthRange list \<Rightarrow> real \<Rightarrow> UsdWorthRange option" where
  "find_range ranges worth =
     find (\<lambda>usdWorthRange. usdWorthFrom usdWorthRange < worth \<and> worth \<le> usdWorthTo usdWorthRange)
       ranges"

text \<open>
  \<^verbatim>\<open>if (range?.minBlockConfirmations)\<close>: false when no range was found, and also when
  the range found has the count 0.
\<close>

definition has_minBlockConfirmations :: "UsdWorthRange option \<Rightarrow> bool" where
  "has_minBlockConfirmations found =
     (case found of None \<Rightarrow> False | Some r \<Rightarrow> range_minBlockConfirmations r \<noteq> 0)"

text \<open>
  \<^verbatim>\<open>processOrder\<close>, after the lookup of \<^verbatim>\<open>params\<close> in \<^verbatim>\<open>incomingOrdersMap\<close>. The caller
  \<^verbatim>\<open>tryProcess\<close> has made the same lookup in the same synchronous run, so \<open>p\<close> is the
  record found there. Every write of \<^verbatim>\<open>processOrder\<close> to the processor comes after its
  last \<^verbatim>\<open>await\<close> on the path taken, so the whole run acts on the state in which it ends.
\<close>

definition processOrder ::
  "world \<Rightarrow> IncomingOrderContext \<Rightarrow> UniversalProcessor \<Rightarrow> error option \<times> UniversalProcessor" where
  "processOrder w p st =
     (if \<not> bucketFound w then (None, st)
      else
        (case takeOrderStatus w of
           Inl e \<Rightarrow> (Some e, st)
         | Inr takeStatus \<Rightarrow>
             if takeStatus \<noteq> Some State_NotSet \<and> takeStatus \<noteq> None then (None, st)
             else
               (case giveOrderStatus w of
                  Inl e \<Rightarrow> (Some e, st)
                | Inr giveStatus \<Rightarrow>
                    if giveStatus \<noteq> Some State_Created then (None, st)
                    else if status p = Created then
                      (case finalization_info p of
                         Revoked \<Rightarrow> (None, clearInternalQueues (orderId p) st)
                       | Confirmed announcedConfirmation \<Rightarrow>
                           (case usdWorth w of
                              Inl e \<Rightarrow> (Some e, st)
                            | Inr worth \<Rightarrow>
                                let found = find_range (usdAmountConfirmations p) worth in
                                if has_minBlockConfirmations found then
                                  (case found of
                                     None \<Rightarrow> (None, st)
                                   | Some r \<Rightarrow>
                                       if announcedConfirmation < range_minBlockConfirmations r
                                       then (None, st)
                                       else processOrder_estimate False w p st)
                                else (None, st))
                       | Finalized \<Rightarrow> processOrder_estimate True w p st)
                    else processOrder_estimate True w p st)))"


section \<open>UniversalProcessor: the pipeline\<close>

definition pickNextOrder :: "UniversalProcessor \<Rightarrow> string option \<times> UniversalProcessor" where
  "pickNextOrder st =
     (let nextOrderId =
            (if truthy (set_first (priorityQueue st)) then set_first (priorityQueue st)
             else set_first (queue st))
      in (case nextOrderId of
            None \<Rightarrow> (None, st)
          | Some n \<Rightarrow>
              if truthy (Some n)
              then (Some n, st\<lparr> priorityQueue := set_delete n (priorityQueue st),
                                queue := set_delete n (queue st) \<rparr>)
              else (None, st)))"

text \<open>
  \<^verbatim>\<open>tryProcess\<close> up to the call of \<^verbatim>\<open>processOrder\<close>: the order is postponed to a queue
  when the lock is held, and takes the lock and the in-flight slot otherwise.
\<close>

definition tryProcess :: "string \<Rightarrow> UniversalProcessor \<Rightarrow> error option \<times> UniversalProcessor" where
  "tryProcess oid st =
     (case incomingOrdersMap st oid of
        None \<Rightarrow> (Some MissingOrderData, st)
      | Some p \<Rightarrow>
          if isLocked st then
            (case status p of
               ArchivalCreated \<Rightarrow> (None, st\<lparr> queue := set_add (orderId p) (queue st) \<rparr>)
             | Created \<Rightarrow> (None, st\<lparr> priorityQueue := set_add (orderId p) (priorityQueue st) \<rparr>)
             | _ \<Rightarrow> (Some UnexpectedOrderStatus, st))
          else (None, st\<lparr> isLocked := True, inFlight := Some p \<rparr>))"

text \<open>
  The rest of \<^verbatim>\<open>tryProcess\<close>, run when the \<^verbatim>\<open>processOrder\<close> of the in-flight order ends,
  having observed \<open>w\<close>: the \<^verbatim>\<open>catch\<close> logs an exception and drops it, the lock is
  released, and the next order, if there is one, goes through \<^verbatim>\<open>tryProcess\<close> (a call
  that is not awaited, so an exception of it reaches nobody). With no order in flight
  there is nothing to resume.
\<close>

definition tryProcess_resume :: "world \<Rightarrow> UniversalProcessor \<Rightarrow> UniversalProcessor" where
  "tryProcess_resume w st =
     (case inFlight st of
        None \<Rightarrow> st
      | Some p \<Rightarrow>
          let st1 = snd (processOrder w p st);
              st2 = st1\<lparr> isLocked := False, inFlight := None \<rparr>;
              picked = pickNextOrder st2
          in (case fst picked of
                None \<Rightarrow> snd picked
              | Some nextOrder \<Rightarrow> snd (tryProcess nextOrder (snd picked))))"

definition process :: "IncomingOrderContext \<Rightarrow> UniversalProcessor \<Rightarrow> error option \<times> UniversalProcessor" where
  "process p st =
     (case status p of
        ArchivalCreated \<Rightarrow>
          tryProcess (orderId p)
            (st\<lparr> incomingOrdersMap := (incomingOrdersMap st)(orderId p \<mapsto> p) \<rparr>)
      | Created \<Rightarrow>
          tryProcess (orderId p)
            (st\<lparr> incomingOrdersMap := (incomingOrdersMap st)(orderId p \<mapsto> p) \<rparr>)
      | ArchivalFulfilled \<Rightarrow>
          (None, st\<lparr> batchUnlocker := batchUnlocker st @ [UnlockOrder (orderId p)] \<rparr>)
      | Cancelled \<Rightarrow> (None, clearInternalQueues (orderId p) st)
      | Fulfilled \<Rightarrow>
          (let st1 = clearInternalQueues (orderId p) st in
           (None, st1\<lparr> batchUnlocker := batchUnlocker st1 @ [UnlockOrder (orderId p)] \<rparr>))
      | OtherStatus \<Rightarrow> (None, st))"

text \<open>
  A run of the pipeline: events delivered to \<^verbatim>\<open>process\<close> (by the executor or by the
  mempool timer) interleaved with the completions of the in-flight \<^verbatim>\<open>processOrder\<close>.
\<close>

datatype pipeline_event = Deliver IncomingOrderContext | Complete world

fun step :: "pipeline_event \<Rightarrow> UniversalProcessor \<Rightarrow> UniversalProcessor" where
  "step (Deliver p) st = snd (process p st)"
| "step (Complete w) st = tryProcess_resume w st"

definition run :: "pipeline_event list \<Rightarrow> UniversalProcessor \<Rightarrow> UniversalProcessor" where
  "run evs st = fold step evs st"


section \<open>Predicates on the state of the pipeline\<close>

text \<open>
  What holds of the queues in every state that a run reaches: neither queue holds an id
  twice, every queued id is not empty and has its record in \<open>incomingOrdersMap\<close>, which
  is keyed by the id of the record.
\<close>

definition queues_ok :: "UniversalProcessor \<Rightarrow> bool" where
  "queues_ok st \<longleftrightarrow>
     distinct (priorityQueue st) \<and> distinct (queue st) \<and>
     (\<forall>oid \<in> set (priorityQueue st) \<union> set (queue st).
        oid \<noteq> [] \<and> incomingOrdersMap st oid \<noteq> None) \<and>
     (\<forall>oid p. incomingOrdersMap st oid = Some p \<longrightarrow> orderId p = oid)"

text \<open>
  The invariant of the pipeline adds the lock: it is held exactly when an order is in
  flight, and both queues are empty when it is free.
\<close>

definition pipeline_inv :: "UniversalProcessor \<Rightarrow> bool" where
  "pipeline_inv st \<longleftrightarrow>
     distinct (priorityQueue st) \<and> distinct (queue st) \<and>
     (\<forall>oid \<in> set (priorityQueue st) \<union> set (queue st).
        oid \<noteq> [] \<and> incomingOrdersMap st oid \<noteq> None) \<and>
     (\<forall>oid p. incomingOrdersMap st oid = Some p \<longrightarrow> orderId p = oid) \<and>
     (isLocked st \<longleftrightarrow> inFlight st \<noteq> None) \<and>
     (\<not> isLocked st \<longrightarrow> priorityQueue st = [] \<and> queue st = [])"

text \<open>
  Two states with the same queues, records, lock and in-flight order; and a state that
  differs from another in the record of sent transactions at most.
\<close>

definition same_pipeline :: "UniversalProcessor \<Rightarrow> UniversalProcessor \<Rightarrow> bool" where
  "same_pipeline st s \<longleftrightarrow>
     priorityQueue s = priorityQueue st \<and> queue s = queue st \<and>
     incomingOrdersMap s = incomingOrdersMap st \<and> isLocked s = isLocked st \<and>
     inFlight s = inFlight st"

definition only_sent :: "UniversalProcessor \<Rightarrow> UniversalProcessor \<Rightarrow> bool" where
  "only_sent st s \<longleftrightarrow> s = st\<lparr> sentTransactions := sentTransactions s \<rparr>"


section \<open>Example inputs\<close>

text \<open>
  An order from Polygon to Ethereum, and the ranges of the boundary scenario of the
  spec: up to 1000 USD with 12 confirmations, above it with 32. An example event is one
  that \<^verbatim>\<open>executeOrder\<close> passes on, without an attempts counter.
\<close>

definition example_order :: OrderData where
  "example_order =
     \<lparr> give_chainId = Polygon, give_tokenAddress = ''usdc@polygon'', give_amount = 1000000000,
       take_chainId = Ethereum, take_tokenAddress = ''usdc@ethereum'',
       take_amount = 999000000 \<rparr>"

definition example_ranges :: "UsdWorthRange list" where
  "example_ranges =
     [\<lparr> usdWorthFrom = 0, usdWorthTo = 1000, range_minBlockConfirmations = 12 \<rparr>,
      \<lparr> usdWorthFrom = 1000, usdWorthTo = 1000000000, range_minBlockConfirmations = 32 \<rparr>]"

definition example_event ::
  "string \<Rightarrow> OrderInfoStatus \<Rightarrow> FinalizationInfo \<Rightarrow> IncomingOrderContext" where
  "example_event oid s fin =
     \<lparr> orderId = oid, status = s, finalization_info = fin, orderData = example_order,
       attempts = None, usdAmountConfirmations = example_ranges \<rparr>"

text \<open>
  A run of \<^verbatim>\<open>processOrder\<close> in which every call succeeds: the order is worth 1000 USD,
  the balance covers it, it is profitable, and the final gas estimate (110000) is within
  the declared limit (125000).
\<close>

definition example_world :: world where
  "example_world =
     \<lparr> bucketFound = True,
       takeOrderStatus = Inr (Some State_NotSet),
       giveOrderStatus = Inr (Some State_Created),
       usdWorth = Inr 1000,
       roughReserveDstAmount = Inr 100,
       accountReserveBalance = Inr 200,
       preEstimatedGas = Inr 100000,
       calculateExpectedTakeAmount = Inr \<lparr> isProfitable = True, reserveDstTokenAgrees = True \<rparr>,
       createOrderFullfillTx = Inr (),
       finalGas = Inr 110000,
       sendTransaction = Inr (),
       waitIsOrderFulfilled = Inr () \<rparr>"

definition example_processor :: UniversalProcessor where
  "example_processor = new_processor default_params Ethereum"


section \<open>Properties of resyncDecimals\<close>

lemma sdiv_times_abs_le:
  fixes a b :: int
  assumes "0 < b"
  shows "\<bar>a sdiv b * b\<bar> \<le> \<bar>a\<bar>"
proof -
  have nn: "0 \<le> \<bar>a\<bar> div b"
    using assms by (simp add: pos_imp_zdiv_nonneg_iff)
  have "\<bar>a sdiv b * b\<bar> = (\<bar>a\<bar> div b) * b"
    using assms nn
    by (cases "a = 0") (simp_all add: signed_divide_int_def abs_mult abs_sgn_eq)
  also have "\<dots> = \<bar>a\<bar> - \<bar>a\<bar> mod b"
    by (simp add: minus_mod_eq_div_mult)
  also have "\<dots> \<le> \<bar>a\<bar>"
    using assms by simp
  finally show ?thesis .
qed

lemma sdiv_times_nonneg:
  fixes a b :: int
  assumes "0 < b" and "0 \<le> a"
  shows "a sdiv b * b \<le> a \<and> a - a sdiv b * b < b"
proof -
  have e: "a sdiv b = a div b"
    using assms by (cases "a = 0") (simp_all add: signed_divide_int_def)
  have "a div b * b = a - a mod b"
    by (simp add: minus_mod_eq_div_mult)
  with e assms show ?thesis
    by simp
qed

lemma resyncDecimals_value:
  assumes "getDecimals chainIn tokenIn = Inr decimalsIn"
    and "getDecimals chainOut tokenOut = Inr decimalsOut"
  shows "resyncDecimals getDecimals chainIn tokenIn amountIn chainOut tokenOut =
           Inr (if decimalsIn = decimalsOut then amountIn
                else if decimalsOut < decimalsIn
                     then amountIn sdiv 10 ^ (decimalsIn - decimalsOut)
                     else amountIn * 10 ^ (decimalsOut - decimalsIn))"
  using assms by (auto simp: resyncDecimals_def Let_def nat_diff_distrib')

text \<open>
  C10. With the decimals of the two tokens known, \<^verbatim>\<open>resyncDecimals\<close> returns the amount
  itself when they are equal, the amount divided by \<open>10 ^ (decimalsIn - decimalsOut)\<close>
  with the quotient truncated when the input token has more decimals, and the amount
  times \<open>10 ^ (decimalsOut - decimalsIn)\<close> otherwise. Converting to fewer decimals and
  back gives the amount less its truncated remainder: never more than the amount in
  absolute value, and for an amount that is not negative (as token amounts are) between
  the amount less one unit of the coarser token and the amount.
\<close>

theorem resyncDecimals_cases_and_roundtrip:
  assumes dIn: "getDecimals chainIn tokenIn = Inr decimalsIn"
    and dOut: "getDecimals chainOut tokenOut = Inr decimalsOut"
  shows
    "resyncDecimals getDecimals chainIn tokenIn amountIn chainOut tokenOut =
       Inr (if decimalsIn = decimalsOut then amountIn
            else if decimalsOut < decimalsIn
                 then amountIn sdiv 10 ^ (decimalsIn - decimalsOut)
                 else amountIn * 10 ^ (decimalsOut - decimalsIn))
     \<and> (decimalsOut \<le> decimalsIn \<longrightarrow>
          (\<exists>down restored.
             resyncDecimals getDecimals chainIn tokenIn amountIn chainOut tokenOut = Inr down \<and>
             resyncDecimals getDecimals chainOut tokenOut down chainIn tokenIn = Inr restored \<and>
             restored = amountIn - amountIn smod 10 ^ (decimalsIn - decimalsOut) \<and>
             \<bar>restored\<bar> \<le> \<bar>amountIn\<bar> \<and>
             (0 \<le> amountIn \<longrightarrow>
                restored \<le> amountIn \<and> amountIn - restored < 10 ^ (decimalsIn - decimalsOut))))"
proof (intro conjI impI)
  show "resyncDecimals getDecimals chainIn tokenIn amountIn chainOut tokenOut =
       Inr (if decimalsIn = decimalsOut then amountIn
            else if decimalsOut < decimalsIn
                 then amountIn sdiv 10 ^ (decimalsIn - decimalsOut)
                 else amountIn * 10 ^ (decimalsOut - decimalsIn))"
    by (rule resyncDecimals_value [OF dIn dOut])
next
  assume le: "decimalsOut \<le> decimalsIn"
  define k where "k = decimalsIn - decimalsOut"
  define b :: int where "b = 10 ^ k"
  have bpos: "0 < b"
    by (simp add: b_def)
  define down where "down = amountIn sdiv b"
  define restored where "restored = down * b"
  have r1: "resyncDecimals getDecimals chainIn tokenIn amountIn chainOut tokenOut = Inr down"
    using le by (simp add: resyncDecimals_value [OF dIn dOut] down_def b_def k_def)
  have r2: "resyncDecimals getDecimals chainOut tokenOut down chainIn tokenIn = Inr restored"
    using le by (auto simp: resyncDecimals_value [OF dOut dIn] restored_def b_def k_def)
  have r3: "restored = amountIn - amountIn smod b"
    unfolding restored_def down_def by (metis minus_smod_eq_sdiv_mult)
  have r4: "\<bar>restored\<bar> \<le> \<bar>amountIn\<bar>"
    unfolding restored_def down_def by (rule sdiv_times_abs_le [OF bpos])
  have r5: "0 \<le> amountIn \<longrightarrow> restored \<le> amountIn \<and> amountIn - restored < b"
    unfolding restored_def down_def using sdiv_times_nonneg [OF bpos] by blast
  from r1 r2 r3 r4 r5
  show "\<exists>down restored.
          resyncDecimals getDecimals chainIn tokenIn amountIn chainOut tokenOut = Inr down \<and>
          resyncDecimals getDecimals chainOut tokenOut down chainIn tokenIn = Inr restored \<and>
          restored = amountIn - amountIn smod 10 ^ (decimalsIn - decimalsOut) \<and>
          \<bar>restored\<bar> \<le> \<bar>amountIn\<bar> \<and>
          (0 \<le> amountIn \<longrightarrow>
             restored \<le> amountIn \<and> amountIn - restored < 10 ^ (decimalsIn - decimalsOut))"
    unfolding b_def k_def by blast
qed

theorem resyncDecimals_cases_and_roundtrip_witness:
  "resyncDecimals (\<lambda>c t. Inr (if c = Ethereum then 8 else 6)) Ethereum ''wbtc'' 1234567
     Solana ''usdc'' = Inr 12345
   \<and> resyncDecimals (\<lambda>c t. Inr (if c = Ethereum then 8 else 6)) Solana ''usdc'' 12345
       Ethereum ''wbtc'' = Inr 1234500
   \<and> resyncDecimals (\<lambda>c t. Inr (if c = Ethereum then 8 else 6)) Ethereum ''wbtc'' (- 1299)
       Solana ''usdc'' = Inr (- 12)"
proof -
  let ?gd = "\<lambda>(c::ChainId) (t::Address). (Inr (if c = Ethereum then 8 else 6) :: error + nat)"
  have a: "?gd Ethereum ''wbtc'' = Inr 8" and b: "?gd Solana ''usdc'' = Inr 6"
    by simp_all
  have s: "(- 1299 :: int) sdiv 100 = - 12"
    by (simp add: signed_divide_int_def)
  show ?thesis
    using resyncDecimals_cases_and_roundtrip [OF a b, where amountIn = 1234567]
      resyncDecimals_cases_and_roundtrip [OF b a, where amountIn = 12345]
      resyncDecimals_cases_and_roundtrip [OF a b, where amountIn = "- 1299"] s
    by (simp add: signed_divide_int_def)
qed


section \<open>Properties of getSrcConstraintsPerOrderValue\<close>

lemma mapThresholds_accepts_iff:
  "(\<exists>rs. mapThresholds chain config cs = Inr rs) \<longleftrightarrow>
   (\<forall>c \<in> set cs. or_zero (minBlockConfirmations c) < BLOCK_CONFIRMATIONS_HARD_CAPS chain)"
  by (induction cs) (auto simp: srcConstraintOf_def split: sum.splits)

lemma mapThresholds_error:
  "mapThresholds chain config cs = Inl e \<Longrightarrow> e = UnableToSetThreshold"
  by (induction cs arbitrary: e) (auto simp: srcConstraintOf_def split: sum.splits if_splits)

text \<open>
  C8. \<^verbatim>\<open>getSrcConstraintsPerOrderValue\<close>, which \<^verbatim>\<open>init\<close> calls for every configured chain
  outside any \<^verbatim>\<open>try\<close>, throws exactly when some required-confirmations threshold of the
  chain has a \<^verbatim>\<open>minBlockConfirmations\<close> (0 when absent) at or above the hard cap of the
  chain, and returns the constraints when every one is strictly below it. The caps are
  12 for Ethereum, 256 for Polygon and 32 for Solana.
\<close>

theorem hard_cap_admission:
  "(getSrcConstraintsPerOrderValue chain config = Inl UnableToSetThreshold \<longleftrightarrow>
      (\<exists>c \<in> set (requiredConfirmationsThresholds config).
         BLOCK_CONFIRMATIONS_HARD_CAPS chain \<le> or_zero (minBlockConfirmations c)))
   \<and> ((\<exists>rs. getSrcConstraintsPerOrderValue chain config = Inr rs) \<longleftrightarrow>
      (\<forall>c \<in> set (requiredConfirmationsThresholds config).
         or_zero (minBlockConfirmations c) < BLOCK_CONFIRMATIONS_HARD_CAPS chain))
   \<and> BLOCK_CONFIRMATIONS_HARD_CAPS S_Ethereum = 12
   \<and> BLOCK_CONFIRMATIONS_HARD_CAPS S_Polygon = 256
   \<and> BLOCK_CONFIRMATIONS_HARD_CAPS S_Solana = 32"
proof -
  let ?cs = "requiredConfirmationsThresholds config"
  let ?ok = "\<forall>c \<in> set ?cs. or_zero (minBlockConfirmations c) < BLOCK_CONFIRMATIONS_HARD_CAPS chain"
  have acc: "(\<exists>rs. getSrcConstraintsPerOrderValue chain config = Inr rs) \<longleftrightarrow> ?ok"
    using mapThresholds_accepts_iff [of chain config ?cs]
    by (auto simp: getSrcConstraintsPerOrderValue_def split: sum.splits)
  have rej: "getSrcConstraintsPerOrderValue chain config = Inl UnableToSetThreshold \<longleftrightarrow> \<not> ?ok"
  proof (cases "mapThresholds chain config ?cs")
    case (Inl e)
    with mapThresholds_error [of chain config ?cs e] mapThresholds_accepts_iff [of chain config ?cs]
    show ?thesis
      by (simp add: getSrcConstraintsPerOrderValue_def)
  next
    case (Inr rs)
    with mapThresholds_accepts_iff [of chain config ?cs]
    show ?thesis
      by (auto simp: getSrcConstraintsPerOrderValue_def)
  qed
  have caps: "BLOCK_CONFIRMATIONS_HARD_CAPS S_Ethereum = 12"
    "BLOCK_CONFIRMATIONS_HARD_CAPS S_Polygon = 256"
    "BLOCK_CONFIRMATIONS_HARD_CAPS S_Solana = 32"
    by (simp_all add: BLOCK_CONFIRMATIONS_HARD_CAPS_def)
  from rej have rej': "getSrcConstraintsPerOrderValue chain config = Inl UnableToSetThreshold \<longleftrightarrow>
      (\<exists>c \<in> set ?cs. BLOCK_CONFIRMATIONS_HARD_CAPS chain \<le> or_zero (minBlockConfirmations c))"
    by (simp add: not_less)
  from rej' acc caps show ?thesis
    by blast
qed

theorem hard_cap_admission_witness:
  "getSrcConstraintsPerOrderValue S_Ethereum
     \<lparr> requiredConfirmationsThresholds =
         [\<lparr> thresholdAmountInUSD = 1000, minBlockConfirmations = Some 12,
            fulfillmentDelay = None \<rparr>],
       defaultFulfillmentDelay = None \<rparr> = Inl UnableToSetThreshold
   \<and> (\<exists>rs. getSrcConstraintsPerOrderValue S_Ethereum
        \<lparr> requiredConfirmationsThresholds =
            [\<lparr> thresholdAmountInUSD = 1000, minBlockConfirmations = Some 11,
               fulfillmentDelay = None \<rparr>,
             \<lparr> thresholdAmountInUSD = 100, minBlockConfirmations = None,
               fulfillmentDelay = Some 3 \<rparr>],
          defaultFulfillmentDelay = Some 7 \<rparr> = Inr rs)"
  using
    hard_cap_admission [of S_Ethereum
      "\<lparr> requiredConfirmationsThresholds =
          [\<lparr> thresholdAmountInUSD = 1000, minBlockConfirmations = Some 12,
             fulfillmentDelay = None \<rparr>],
         defaultFulfillmentDelay = None \<rparr>"]
    hard_cap_admission [of S_Ethereum
      "\<lparr> requiredConfirmationsThresholds =
          [\<lparr> thresholdAmountInUSD = 1000, minBlockConfirmations = Some 11,
             fulfillmentDelay = None \<rparr>,
           \<lparr> thresholdAmountInUSD = 100, minBlockConfirmations = None,
             fulfillmentDelay = Some 3 \<rparr>],
         defaultFulfillmentDelay = Some 7 \<rparr>"]
  by (simp add: or_zero_def)


section \<open>Properties of setSupportedChains\<close>

lemma fold_forEach_body: "fold forEach_body xs cs = cs"
  by (induction xs) (simp_all add: forEach_body_def)

text \<open>The keys are the chain ids of the object literal, in ascending numeric order.\<close>

lemma connector_keys_ascending:
  "connector_keys =
     sort_key chain_number
       [Ethereum, BSC, Heco, Polygon, Arbitrum, Avalanche, AvalancheTest, Kovan, BSCTest,
        HecoTest, PolygonTest, ArbitrumTest, Solana, Fantom, Linea, Base, Optimism]"
  by (simp add: connector_keys_def chain_number_def)

text \<open>
  C9. For every list of chain ids and every table of connectors, \<^verbatim>\<open>setSupportedChains\<close>
  leaves the table as it was: no connector is removed or disabled, and
  \<^verbatim>\<open>getSupportedChains\<close> returns the same chains after the call as before it.
\<close>

theorem setSupportedChains_unchanged:
  "setSupportedChains chainIds cs = cs
   \<and> getSupportedChains (setSupportedChains chainIds cs) = getSupportedChains cs
   \<and> getConnector (setSupportedChains chainIds cs) chainId = getConnector cs chainId"
  by (simp add: setSupportedChains_def fold_forEach_body)

theorem setSupportedChains_unchanged_witness:
  "getSupportedChains (setSupportedChains [Ethereum] (initSolana constructor_connectors)) =
     [Ethereum, Optimism, BSC, Polygon, Fantom, Base, Arbitrum, Avalanche, Linea, Solana]
   \<and> getConnector (setSupportedChains [Ethereum] constructor_connectors) Polygon =
       Inr OneInchV4Connector"
  using setSupportedChains_unchanged [of "[Ethereum]" "initSolana constructor_connectors" Polygon]
    setSupportedChains_unchanged [of "[Ethereum]" constructor_connectors Polygon]
  by (simp add: getSupportedChains_def connector_keys_def initSolana_def
      constructor_connectors_def getConnector_def)


section \<open>The declared gas limit\<close>

text \<open>
  Below \<open>2 ^ 50\<close> gas units the product with 1.25 is exact, and the limit is the
  estimate times five quarters, a half rounded upwards.
\<close>

lemma declared_gas_limit_exact:
  assumes "0 \<le> g" and "g < 2 ^ 50"
  shows "declared_gas_limit g = (5 * g + 2) div 4"
proof -
  from assms have "5 * g < 2 ^ nat 53"
    by simp
  with assms(1) have "bitlen \<bar>5 * g\<bar> \<le> 53"
    by (simp add: bitlen_le_iff_power)
  then show ?thesis
    by (simp add: declared_gas_limit_def double_of_quarters_def Let_def)
qed

lemma declared_gas_limit_100000: "declared_gas_limit 100000 = 125000"
  by (simp add: declared_gas_limit_exact)

text \<open>Above it the product is rounded to a double first.\<close>

lemma declared_gas_limit_rounds_double:
  "declared_gas_limit 7205759403792796 = 9007199254740996"
  by code_simp


section \<open>Properties of processOrder: the confirmation policy\<close>

lemma find_range_first:
  "find_range ranges worth = Some r \<longleftrightarrow>
     (\<exists>i < length ranges. ranges ! i = r \<and> usdWorthFrom r < worth \<and> worth \<le> usdWorthTo r \<and>
        (\<forall>j < i. \<not> (usdWorthFrom (ranges ! j) < worth \<and> worth \<le> usdWorthTo (ranges ! j))))"
  unfolding find_range_def find_Some_iff by blast

lemma find_range_none:
  "find_range ranges worth = None \<longleftrightarrow>
     (\<forall>r \<in> set ranges. \<not> (usdWorthFrom r < worth \<and> worth \<le> usdWorthTo r))"
  unfolding find_range_def find_None_iff by blast

lemma processOrder_confirmed:
  assumes "bucketFound w"
    and "takeOrderStatus w = Inr ts" and "ts = None \<or> ts = Some State_NotSet"
    and "giveOrderStatus w = Inr (Some State_Created)"
    and "status p = Created" and "finalization_info p = Confirmed n"
    and "usdWorth w = Inr worth"
  shows "processOrder w p st =
           (case find_range (usdAmountConfirmations p) worth of
              None \<Rightarrow> (None, st)
            | Some r \<Rightarrow>
                if range_minBlockConfirmations r = 0 \<or> n < range_minBlockConfirmations r
                then (None, st)
                else processOrder_estimate False w p st)"
  using assms
  by (auto simp: processOrder_def has_minBlockConfirmations_def Let_def split: option.splits)


text \<open>
  C1, as the code has it. For a \<^verbatim>\<open>Created\<close> order announced as \<^verbatim>\<open>Confirmed{n}\<close> that
  passed the checks of the on-chain state, \<^verbatim>\<open>processOrder\<close> takes the first range of the
  list with \<open>usdWorthFrom < worth \<le> usdWorthTo\<close> (so a worth equal to the upper bound
  of a range matches it). It returns with the processor unchanged, so without a
  transaction and without a mempool entry, when no range matches, when the range found
  has \<open>minBlockConfirmations = 0\<close>, or when \<open>n\<close> is less than the range's
  \<open>minBlockConfirmations\<close>; otherwise it goes on with \<open>allowPlaceToMempool = false\<close>.
\<close>

theorem confirmation_policy:
  assumes "bucketFound w"
    and "takeOrderStatus w = Inr ts" and "ts = None \<or> ts = Some State_NotSet"
    and "giveOrderStatus w = Inr (Some State_Created)"
    and "status p = Created" and "finalization_info p = Confirmed n"
    and "usdWorth w = Inr worth"
  shows
    "processOrder w p st =
       (case find_range (usdAmountConfirmations p) worth of
          None \<Rightarrow> (None, st)
        | Some r \<Rightarrow>
            if range_minBlockConfirmations r = 0 \<or> n < range_minBlockConfirmations r
            then (None, st)
            else processOrder_estimate False w p st)
     \<and> (\<forall>r. find_range (usdAmountConfirmations p) worth = Some r \<longleftrightarrow>
          (\<exists>i < length (usdAmountConfirmations p).
             usdAmountConfirmations p ! i = r \<and> usdWorthFrom r < worth \<and> worth \<le> usdWorthTo r \<and>
             (\<forall>j < i. \<not> (usdWorthFrom (usdAmountConfirmations p ! j) < worth \<and>
                          worth \<le> usdWorthTo (usdAmountConfirmations p ! j)))))
     \<and> (find_range (usdAmountConfirmations p) worth = None \<longleftrightarrow>
          (\<forall>r \<in> set (usdAmountConfirmations p).
             \<not> (usdWorthFrom r < worth \<and> worth \<le> usdWorthTo r)))"
  using processOrder_confirmed [OF assms] find_range_first find_range_none
  by blast

theorem confirmation_policy_witness:
  "processOrder example_world (example_event ''0xA'' Created (Confirmed 12)) example_processor =
     processOrder_estimate False example_world (example_event ''0xA'' Created (Confirmed 12))
       example_processor
   \<and> processOrder example_world (example_event ''0xA'' Created (Confirmed 11)) example_processor =
       (None, example_processor)
   \<and> find_range example_ranges 1000 =
       Some \<lparr> usdWorthFrom = 0, usdWorthTo = 1000, range_minBlockConfirmations = 12 \<rparr>"
proof -
  have w: "bucketFound example_world"
    "takeOrderStatus example_world = Inr (Some State_NotSet)"
    "Some State_NotSet = None \<or> Some State_NotSet = Some State_NotSet"
    "giveOrderStatus example_world = Inr (Some State_Created)"
    "usdWorth example_world = Inr 1000"
    by (simp_all add: example_world_def)
  have p: "status (example_event ''0xA'' Created (Confirmed k)) = Created"
    "finalization_info (example_event ''0xA'' Created (Confirmed k)) = Confirmed k"
    "usdAmountConfirmations (example_event ''0xA'' Created (Confirmed k)) = example_ranges"
    for k
    by (simp_all add: example_event_def)
  have f: "find_range example_ranges 1000 =
       Some \<lparr> usdWorthFrom = 0, usdWorthTo = 1000, range_minBlockConfirmations = 12 \<rparr>"
    by (simp add: find_range_def example_ranges_def)
  show ?thesis
    using confirmation_policy [OF w(1-4) p(1,2) w(5), of 12 example_processor]
      confirmation_policy [OF w(1-4) p(1,2) w(5), of 11 example_processor]
    by (simp add: p f)
qed

text \<open>
  C1 as the spec states it fails where the range found has \<open>minBlockConfirmations = 0\<close>:
  an order worth 1000 USD announced with 5 confirmations matches the range
  \<open>(0, 1000]\<close> with the count 0, and 5 is not less than 0, yet \<^verbatim>\<open>processOrder\<close> returns
  at once with the processor unchanged, where going on would have broadcast the
  fulfill transaction.
\<close>

theorem zero_confirmations_counterexample:
  "find_range [\<lparr> usdWorthFrom = 0, usdWorthTo = 1000, range_minBlockConfirmations = 0 \<rparr>] 1000 =
     Some \<lparr> usdWorthFrom = 0, usdWorthTo = 1000, range_minBlockConfirmations = 0 \<rparr>
   \<and> \<not> (5 :: int) < 0
   \<and> processOrder example_world
       ((example_event ''0xA'' Created (Confirmed 5))
          \<lparr> usdAmountConfirmations :=
              [\<lparr> usdWorthFrom = 0, usdWorthTo = 1000, range_minBlockConfirmations = 0 \<rparr>] \<rparr>)
       example_processor = (None, example_processor)
   \<and> sentTransactions (snd (processOrder_estimate False example_world
       ((example_event ''0xA'' Created (Confirmed 5))
          \<lparr> usdAmountConfirmations :=
              [\<lparr> usdWorthFrom = 0, usdWorthTo = 1000, range_minBlockConfirmations = 0 \<rparr>] \<rparr>)
       example_processor)) = [(''0xA'', Some 125000)]"
  by (simp add: find_range_def processOrder_def has_minBlockConfirmations_def
      example_world_def example_event_def example_processor_def new_processor_def
      processOrder_estimate_def processOrder_profitability_def processOrder_fulfill_def
      processOrder_broadcast_def gas_exceeds_def declared_gas_limit_100000
      getEngineByChainId_def example_order_def clearInternalQueues_def Let_def)


section \<open>Properties of processOrder: the balance check\<close>

lemma balance_shortfall_mempools:
  assumes "roughReserveDstAmount w = Inr rough" and "accountReserveBalance w = Inr balance"
    and "balance < rough"
  shows "processOrder_estimate allowPlaceToMempool w p st = (None, addOrder p None st)"
  using assms by (simp add: processOrder_estimate_def)

text \<open>
  C4 does not hold of the code. The order \<open>0xA\<close>, worth 1000 USD and announced with 12
  confirmations, is admitted under the range \<open>(0, 1000]\<close>, which asks for 12, so
  \<open>allowPlaceToMempool\<close> is false. The balance 50 does not cover the 100 needed, and
  \<^verbatim>\<open>processOrder\<close> calls \<^verbatim>\<open>mempoolService.addOrder\<close> all the same: the order is in the
  mempool afterwards, with the standard delay.
\<close>

theorem non_finalized_order_mempooled_on_balance_shortfall:
  "processOrder (example_world \<lparr> accountReserveBalance := Inr 50 \<rparr>)
     (example_event ''0xA'' Created (Confirmed 12)) example_processor =
     (None, addOrder (example_event ''0xA'' Created (Confirmed 12)) None example_processor)
   \<and> mempoolService
       (snd (processOrder (example_world \<lparr> accountReserveBalance := Inr 50 \<rparr>)
          (example_event ''0xA'' Created (Confirmed 12)) example_processor)) ''0xA'' =
       Some \<lparr> entry_params = example_event ''0xA'' Created (Confirmed 12), entry_delay = 60 \<rparr>"
proof -
  let ?w = "example_world \<lparr> accountReserveBalance := Inr 50 \<rparr>"
  let ?p = "example_event ''0xA'' Created (Confirmed 12)"
  have w: "bucketFound ?w" "takeOrderStatus ?w = Inr (Some State_NotSet)"
    "Some State_NotSet = None \<or> Some State_NotSet = Some State_NotSet"
    "giveOrderStatus ?w = Inr (Some State_Created)" "usdWorth ?w = Inr 1000"
    "roughReserveDstAmount ?w = Inr 100" "accountReserveBalance ?w = Inr 50"
    by (simp_all add: example_world_def)
  have p: "status ?p = Created" "finalization_info ?p = Confirmed 12"
    by (simp_all add: example_event_def)
  have f: "find_range (usdAmountConfirmations ?p) 1000 =
       Some \<lparr> usdWorthFrom = 0, usdWorthTo = 1000, range_minBlockConfirmations = 12 \<rparr>"
    by (simp add: find_range_def example_ranges_def example_event_def)
  have "processOrder ?w ?p example_processor = processOrder_estimate False ?w ?p example_processor"
    using processOrder_confirmed [OF w(1-4) p w(5), of example_processor] f by simp
  also have "\<dots> = (None, addOrder ?p None example_processor)"
    by (rule balance_shortfall_mempools [OF w(6,7)]) simp
  finally have r: "processOrder ?w ?p example_processor = (None, addOrder ?p None example_processor)" .
  have "mempoolService (addOrder ?p None example_processor) ''0xA'' =
      Some \<lparr> entry_params = ?p, entry_delay = 60 \<rparr>"
    by (simp add: addOrder_def mempool_addOrder_def example_processor_def new_processor_def
        default_params_def example_event_def attempts_count_def)
  with r show ?thesis
    by simp
qed


section \<open>Properties of processOrder: the final gas estimate\<close>







section \<open>The effect of processOrder on the pipeline\<close>

lemma broadcast_effect:
  "same_pipeline st (snd (processOrder_broadcast a g w p st)) \<or>
   same_pipeline (clearInternalQueues (orderId p) st) (snd (processOrder_broadcast a g w p st))"
  by (simp add: processOrder_broadcast_def same_pipeline_def addOrder_def
      clearInternalQueues_def Let_def split: sum.splits)

lemma fulfill_effect:
  "same_pipeline st (snd (processOrder_fulfill a g w p st)) \<or>
   same_pipeline (clearInternalQueues (orderId p) st) (snd (processOrder_fulfill a g w p st))"
  using broadcast_effect [of st a g w p] broadcast_effect [of st a None w p]
  by (simp add: processOrder_fulfill_def same_pipeline_def addOrder_def split: sum.splits)

lemma profitability_effect:
  "same_pipeline st (snd (processOrder_profitability a g w p st)) \<or>
   same_pipeline (clearInternalQueues (orderId p) st) (snd (processOrder_profitability a g w p st))"
  using fulfill_effect [of st a g w p]
  by (simp add: processOrder_profitability_def same_pipeline_def addOrder_def split: sum.splits)

lemma estimate_effect:
  "same_pipeline st (snd (processOrder_estimate a w p st)) \<or>
   same_pipeline (clearInternalQueues (orderId p) st) (snd (processOrder_estimate a w p st))"
  using profitability_effect [of st a _ w p]
  by (simp add: processOrder_estimate_def same_pipeline_def addOrder_def split: sum.splits)

lemma processOrder_effect:
  "same_pipeline st (snd (processOrder w p st)) \<or>
   same_pipeline (clearInternalQueues (orderId p) st) (snd (processOrder w p st))"
  using estimate_effect [of st True w p] estimate_effect [of st False w p]
  by (simp add: processOrder_def same_pipeline_def Let_def
      split: sum.splits FinalizationInfo.splits option.splits)


lemma queues_ok_clear: "queues_ok st \<Longrightarrow> queues_ok (clearInternalQueues oid st)"
  by (auto simp: queues_ok_def clearInternalQueues_def set_delete_def distinct_removeAll)

lemma queues_ok_same: "same_pipeline st s \<Longrightarrow> queues_ok st \<Longrightarrow> queues_ok s"
  by (simp add: queues_ok_def same_pipeline_def)

lemma queues_ok_processOrder: "queues_ok st \<Longrightarrow> queues_ok (snd (processOrder w p st))"
  using processOrder_effect [of st w p] queues_ok_same queues_ok_clear by blast

lemma pickNextOrder_nonempty:
  assumes "[] \<notin> set (priorityQueue st) \<union> set (queue st)"
  shows "pickNextOrder st =
     (case priorityQueue st of
        x # xs \<Rightarrow> (Some x, st\<lparr> priorityQueue := set_delete x (priorityQueue st),
                               queue := set_delete x (queue st) \<rparr>)
      | [] \<Rightarrow>
          (case queue st of
             y # ys \<Rightarrow> (Some y, st\<lparr> priorityQueue := set_delete y (priorityQueue st),
                                    queue := set_delete y (queue st) \<rparr>)
           | [] \<Rightarrow> (None, st)))"
  using assms
  by (auto simp: pickNextOrder_def set_first_def truthy_def Let_def split: list.splits)

lemma pickNextOrder_removed:
  "pickNextOrder st = (Some n, s) \<Longrightarrow> n \<notin> set (priorityQueue s) \<and> n \<notin> set (queue s)"
  by (auto simp: pickNextOrder_def set_first_def truthy_def Let_def set_delete_def
      split: list.splits if_splits option.splits)

lemma inv_queues_ok:
  "pipeline_inv st \<longleftrightarrow>
     queues_ok st \<and> (isLocked st \<longleftrightarrow> inFlight st \<noteq> None) \<and>
     (\<not> isLocked st \<longrightarrow> priorityQueue st = [] \<and> queue st = [])"
  by (auto simp: pipeline_inv_def queues_ok_def)

lemma resume_released:
  assumes "queues_ok s" and "\<not> isLocked s" and "inFlight s = None"
  shows "pipeline_inv
     (case fst (pickNextOrder s) of
        None \<Rightarrow> snd (pickNextOrder s)
      | Some nextOrder \<Rightarrow> snd (tryProcess nextOrder (snd (pickNextOrder s))))"
proof -
  from assms(1) have ne: "[] \<notin> set (priorityQueue s) \<union> set (queue s)"
    by (auto simp: queues_ok_def)
  show ?thesis
  proof (cases "priorityQueue s")
    case (Cons x xs)
    with assms(1) obtain px where "incomingOrdersMap s x = Some px"
      by (auto simp: queues_ok_def)
    with Cons assms show ?thesis
      by (auto simp: pickNextOrder_nonempty [OF ne] tryProcess_def inv_queues_ok queues_ok_def
          set_delete_def distinct_removeAll)
  next
    case Nil
    note pq = Nil
    show ?thesis
    proof (cases "queue s")
      case (Cons y ys)
      with assms(1) obtain py where "incomingOrdersMap s y = Some py"
        by (auto simp: queues_ok_def)
      with Cons pq assms show ?thesis
        by (auto simp: pickNextOrder_nonempty [OF ne] tryProcess_def inv_queues_ok queues_ok_def
            set_delete_def distinct_removeAll)
    next
      case Nil
      with pq assms show ?thesis
        by (simp add: pickNextOrder_nonempty [OF ne] inv_queues_ok)
    qed
  qed
qed

lemma inv_resume: "pipeline_inv st \<Longrightarrow> pipeline_inv (tryProcess_resume w st)"
proof (cases "inFlight st")
  case None
  assume "pipeline_inv st"
  with None show ?thesis by (simp add: tryProcess_resume_def)
next
  case (Some p)
  assume inv: "pipeline_inv st"
  let ?s = "(snd (processOrder w p st))\<lparr> isLocked := False, inFlight := None \<rparr>"
  from inv have "queues_ok (snd (processOrder w p st))"
    by (simp add: inv_queues_ok queues_ok_processOrder)
  then have "queues_ok ?s"
    by (simp add: queues_ok_def)
  from resume_released [OF this] Some show ?thesis
    by (simp add: tryProcess_resume_def Let_def)
qed

lemma inv_clearInternalQueues:
  assumes "pipeline_inv st"
  shows "pipeline_inv (clearInternalQueues oid st)"
proof -
  from assms have "queues_ok (clearInternalQueues oid st)"
    by (simp add: inv_queues_ok queues_ok_clear)
  moreover have "isLocked (clearInternalQueues oid st) = isLocked st"
    "inFlight (clearInternalQueues oid st) = inFlight st"
    by (simp_all add: clearInternalQueues_def)
  moreover have "priorityQueue st = [] \<longrightarrow> priorityQueue (clearInternalQueues oid st) = []"
    "queue st = [] \<longrightarrow> queue (clearInternalQueues oid st) = []"
    by (simp_all add: clearInternalQueues_def set_delete_def)
  ultimately show ?thesis
    using assms unfolding inv_queues_ok by simp
qed

lemma inv_batchUnlocker:
  "pipeline_inv (st\<lparr> batchUnlocker := calls \<rparr>) = pipeline_inv st"
  by (simp add: pipeline_inv_def)

lemma inv_process:
  assumes "pipeline_inv st" and "orderId p \<noteq> []"
  shows "pipeline_inv (snd (process p st))"
proof (cases "status p")
  case Created
  with assms show ?thesis
    by (auto simp: process_def tryProcess_def pipeline_inv_def set_add_def)
next
  case ArchivalCreated
  with assms show ?thesis
    by (auto simp: process_def tryProcess_def pipeline_inv_def set_add_def)
next
  case ArchivalFulfilled
  with assms show ?thesis
    by (simp add: process_def inv_batchUnlocker)
next
  case Fulfilled
  with inv_clearInternalQueues [OF assms(1), of "orderId p"] show ?thesis
    by (simp add: process_def Let_def inv_batchUnlocker)
next
  case Cancelled
  with inv_clearInternalQueues [OF assms(1), of "orderId p"] show ?thesis
    by (simp add: process_def)
next
  case OtherStatus
  with assms show ?thesis
    by (simp add: process_def)
qed

lemma inv_new: "pipeline_inv (new_processor ps c)"
  by (simp add: pipeline_inv_def new_processor_def)

lemma inv_run:
  assumes "pipeline_inv st" and "\<forall>ev \<in> set evs. \<forall>p. ev = Deliver p \<longrightarrow> orderId p \<noteq> []"
  shows "pipeline_inv (run evs st)"
  using assms
proof (induction evs arbitrary: st)
  case Nil
  then show ?case by (simp add: run_def)
next
  case (Cons ev evs)
  have "pipeline_inv (step ev st)"
  proof (cases ev)
    case (Deliver p)
    with Cons.prems show ?thesis by (simp add: inv_process)
  next
    case (Complete w)
    with Cons.prems show ?thesis by (simp add: inv_resume)
  qed
  with Cons show ?case
    by (simp add: run_def)
qed


section \<open>The end of a run of processOrder\<close>

lemma pickNextOrder_lock:
  "isLocked (snd (pickNextOrder st)) = isLocked st \<and> inFlight (snd (pickNextOrder st)) = inFlight st
   \<and> incomingOrdersMap (snd (pickNextOrder st)) = incomingOrdersMap st"
  by (simp add: pickNextOrder_def Let_def split: option.splits)

lemma tryProcess_unlocked:
  "\<not> isLocked s \<Longrightarrow> incomingOrdersMap s n = Some pn \<Longrightarrow>
   tryProcess n s = (None, s\<lparr> isLocked := True, inFlight := Some pn \<rparr>)"
  by (simp add: tryProcess_def)

lemma tryProcess_missing:
  "incomingOrdersMap s n = None \<Longrightarrow> tryProcess n s = (Some MissingOrderData, s)"
  by (simp add: tryProcess_def)

lemma resume_unfold:
  assumes "inFlight st = Some p"
  shows "tryProcess_resume w st =
     (case fst (pickNextOrder ((snd (processOrder w p st))\<lparr> isLocked := False, inFlight := None \<rparr>)) of
        None \<Rightarrow> snd (pickNextOrder ((snd (processOrder w p st))\<lparr> isLocked := False, inFlight := None \<rparr>))
      | Some n \<Rightarrow> snd (tryProcess n (snd (pickNextOrder ((snd (processOrder w p st))\<lparr> isLocked := False, inFlight := None \<rparr>)))))"
  using assms by (simp add: tryProcess_resume_def Let_def)

lemma resume_next:
  assumes "inFlight st = Some p"
    and "pickNextOrder ((snd (processOrder w p st))\<lparr> isLocked := False, inFlight := None \<rparr>) = (Some n, s)"
    and "incomingOrdersMap s n = Some pn"
  shows "tryProcess_resume w st = s\<lparr> isLocked := True, inFlight := Some pn \<rparr>"
proof -
  from assms(2) pickNextOrder_lock [of "(snd (processOrder w p st))\<lparr> isLocked := False, inFlight := None \<rparr>"]
  have "\<not> isLocked s" by simp
  from tryProcess_unlocked [OF this assms(3)] assms(1,2) show ?thesis
    by (simp add: resume_unfold)
qed

lemma resume_none:
  assumes "inFlight st = Some p"
    and "fst (pickNextOrder ((snd (processOrder w p st))\<lparr> isLocked := False, inFlight := None \<rparr>)) = None"
  shows "\<not> isLocked (tryProcess_resume w st) \<and> inFlight (tryProcess_resume w st) = None"
  using assms pickNextOrder_lock [of "(snd (processOrder w p st))\<lparr> isLocked := False, inFlight := None \<rparr>"]
  by (simp add: resume_unfold)

lemma resume_lock_iff:
  assumes "inFlight st = Some p"
  shows "isLocked (tryProcess_resume w st) \<longleftrightarrow> inFlight (tryProcess_resume w st) \<noteq> None"
proof -
  let ?r = "(snd (processOrder w p st))\<lparr> isLocked := False, inFlight := None \<rparr>"
  have l: "\<not> isLocked (snd (pickNextOrder ?r))" "inFlight (snd (pickNextOrder ?r)) = None"
    using pickNextOrder_lock [of ?r] by simp_all
  show ?thesis
  proof (cases "fst (pickNextOrder ?r)")
    case None
    with resume_none [OF assms this] show ?thesis by simp
  next
    case (Some n)
    show ?thesis
    proof (cases "incomingOrdersMap (snd (pickNextOrder ?r)) n")
      case None
      with Some l assms show ?thesis
        by (simp add: resume_unfold tryProcess_missing)
    next
      case (Some pn)
      with \<open>fst (pickNextOrder ?r) = Some n\<close> l assms show ?thesis
        by (simp add: resume_unfold tryProcess_unlocked)
    qed
  qed
qed

lemma only_sent_refl: "only_sent st st"
  by (simp add: only_sent_def)

lemma thrown_broadcast:
  "fst (processOrder_broadcast a g w p st) = Some e \<Longrightarrow>
   only_sent st (snd (processOrder_broadcast a g w p st))"
  by (simp add: processOrder_broadcast_def only_sent_def Let_def split: sum.splits)

lemma thrown_fulfill:
  "fst (processOrder_fulfill a g w p st) = Some e \<Longrightarrow>
   only_sent st (snd (processOrder_fulfill a g w p st))"
  using thrown_broadcast [of a _ w p st e]
  by (auto simp: processOrder_fulfill_def only_sent_refl split: sum.splits if_splits)

lemma thrown_profitability:
  "fst (processOrder_profitability a g w p st) = Some e \<Longrightarrow>
   only_sent st (snd (processOrder_profitability a g w p st))"
  using thrown_fulfill [of a g w p st e]
  by (auto simp: processOrder_profitability_def only_sent_refl split: sum.splits if_splits)

lemma thrown_estimate:
  "fst (processOrder_estimate a w p st) = Some e \<Longrightarrow>
   only_sent st (snd (processOrder_estimate a w p st))"
  using thrown_profitability [of a _ w p st e]
  by (auto simp: processOrder_estimate_def only_sent_refl split: sum.splits if_splits)

lemma thrown_processOrder:
  "fst (processOrder w p st) = Some e \<Longrightarrow> only_sent st (snd (processOrder w p st))"
  using thrown_estimate [of _ w p st e]
  by (auto simp: processOrder_def Let_def only_sent_refl
      split: sum.splits if_splits FinalizationInfo.splits option.splits)

lemma only_sent_fields:
  assumes "only_sent st s"
  shows "priorityQueue s = priorityQueue st \<and> queue s = queue st \<and>
     incomingOrdersMap s = incomingOrdersMap st \<and> mempoolService s = mempoolService st \<and>
     batchUnlocker s = batchUnlocker st"
proof -
  from assms obtain sent where "s = st\<lparr> sentTransactions := sent \<rparr>"
    unfolding only_sent_def by blast
  then show ?thesis
    by simp
qed

lemma resume_in_flight_not_queued:
  assumes "pipeline_inv st" and "inFlight (tryProcess_resume w st) = Some p'"
  shows "orderId p' \<notin> set (priorityQueue (tryProcess_resume w st)) \<union>
           set (queue (tryProcess_resume w st))"
proof (cases "inFlight st")
  case None
  with assms show ?thesis
    by (simp add: tryProcess_resume_def)
next
  case (Some p)
  let ?r = "(snd (processOrder w p st))\<lparr> isLocked := False, inFlight := None \<rparr>"
  from assms(1) have "queues_ok (snd (processOrder w p st))"
    by (simp add: inv_queues_ok queues_ok_processOrder)
  then have q: "queues_ok ?r"
    by (simp add: queues_ok_def)
  obtain nx s where pk: "pickNextOrder ?r = (nx, s)"
    by (cases "pickNextOrder ?r")
  show ?thesis
  proof (cases nx)
    case None
    with resume_none [OF Some, of w] pk assms(2) show ?thesis
      by simp
  next
    case (Some n)
    with pk have pk': "pickNextOrder ?r = (Some n, s)"
      by simp
    from pickNextOrder_removed [OF pk'] have nq: "n \<notin> set (priorityQueue s)" "n \<notin> set (queue s)"
      by simp_all
    from pk' pickNextOrder_lock [of ?r] have m: "incomingOrdersMap s = incomingOrdersMap ?r"
      by simp
    show ?thesis
    proof (cases "incomingOrdersMap s n")
      case None
      with pk' \<open>inFlight st = Some p\<close> pickNextOrder_lock [of ?r] assms(2) show ?thesis
        by (simp add: resume_unfold tryProcess_missing)
    next
      case (Some pn)
      from resume_next [OF \<open>inFlight st = Some p\<close> pk' Some]
      have r: "tryProcess_resume w st = s\<lparr> isLocked := True, inFlight := Some pn \<rparr>" .
      from Some m q have "orderId pn = n"
        by (simp add: queues_ok_def)
      with r nq assms(2) show ?thesis
        by simp
    qed
  qed
qed

text \<open>Unfolding the model on a concrete run.\<close>

lemmas pipeline_eval =
  run_def process_def tryProcess_def tryProcess_resume_def pickNextOrder_def
  set_first_def truthy_def set_add_def set_delete_def Let_def
  processOrder_def processOrder_estimate_def processOrder_profitability_def
  processOrder_fulfill_def processOrder_broadcast_def gas_exceeds_def
  declared_gas_limit_100000
  getEngineByChainId_def addOrder_def mempool_addOrder_def mempool_delete_def
  clearInternalQueues_def has_minBlockConfirmations_def find_range_def
  attempts_below_def attempts_count_def example_world_def example_event_def
  example_order_def example_ranges_def example_processor_def new_processor_def
  default_params_def

section \<open>Properties of the pipeline: reachable states\<close>

text \<open>
  C2, as the code has it. In every state that the pipeline of a take chain reaches from
  a new processor, by events with an order id that is not empty: neither queue holds an
  id twice, every queued id has its record in the incoming-orders map, the lock is held
  exactly when the in-flight slot is taken, and both queues are empty when it is free.
  An order is in neither queue at the moment it takes the in-flight slot, after a
  completion or on delivery to a free pipeline. (An id delivered again while it is in
  flight is queued, and is then queued and in flight at once.)
\<close>

theorem pipeline_reachable_invariant:
  assumes "\<forall>ev \<in> set evs. \<forall>p. ev = Deliver p \<longrightarrow> orderId p \<noteq> []"
  shows
    "pipeline_inv (run evs (new_processor ps chainId))
     \<and> (\<forall>w p'. inFlight (step (Complete w) (run evs (new_processor ps chainId))) = Some p' \<longrightarrow>
          orderId p' \<notin> set (priorityQueue (step (Complete w) (run evs (new_processor ps chainId))))
            \<union> set (queue (step (Complete w) (run evs (new_processor ps chainId)))))
     \<and> (\<forall>p. \<not> isLocked (run evs (new_processor ps chainId)) \<and>
            (status p = Created \<or> status p = ArchivalCreated) \<longrightarrow>
          inFlight (step (Deliver p) (run evs (new_processor ps chainId))) = Some p \<and>
          priorityQueue (step (Deliver p) (run evs (new_processor ps chainId))) = [] \<and>
          queue (step (Deliver p) (run evs (new_processor ps chainId))) = [])"
proof -
  let ?st = "run evs (new_processor ps chainId)"
  have inv: "pipeline_inv ?st"
    by (rule inv_run [OF inv_new assms])
  have a: "\<forall>w p'. inFlight (step (Complete w) ?st) = Some p' \<longrightarrow>
          orderId p' \<notin> set (priorityQueue (step (Complete w) ?st)) \<union> set (queue (step (Complete w) ?st))"
    using resume_in_flight_not_queued [OF inv] by simp
  have b: "\<forall>p. \<not> isLocked ?st \<and> (status p = Created \<or> status p = ArchivalCreated) \<longrightarrow>
          inFlight (step (Deliver p) ?st) = Some p \<and>
          priorityQueue (step (Deliver p) ?st) = [] \<and> queue (step (Deliver p) ?st) = []"
    using inv by (auto simp: pipeline_inv_def process_def tryProcess_def)
  from inv a b show ?thesis
    by blast
qed

theorem pipeline_reachable_invariant_witness:
  "pipeline_inv
     (run [Deliver (example_event ''0xA'' Created Finalized),
           Deliver (example_event ''0xB'' Created Finalized),
           Deliver (example_event ''0xC'' ArchivalCreated Finalized),
           Deliver (example_event ''0xB'' Created Finalized)] example_processor)
   \<and> priorityQueue
       (run [Deliver (example_event ''0xA'' Created Finalized),
             Deliver (example_event ''0xB'' Created Finalized),
             Deliver (example_event ''0xC'' ArchivalCreated Finalized),
             Deliver (example_event ''0xB'' Created Finalized)] example_processor) = [''0xB'']
   \<and> inFlight
       (step (Complete example_world)
          (run [Deliver (example_event ''0xA'' Created Finalized),
                Deliver (example_event ''0xB'' Created Finalized),
                Deliver (example_event ''0xC'' ArchivalCreated Finalized),
                Deliver (example_event ''0xB'' Created Finalized)] example_processor)) =
       Some (example_event ''0xB'' Created Finalized)
   \<and> priorityQueue
       (step (Complete example_world)
          (run [Deliver (example_event ''0xA'' Created Finalized),
                Deliver (example_event ''0xB'' Created Finalized),
                Deliver (example_event ''0xC'' ArchivalCreated Finalized),
                Deliver (example_event ''0xB'' Created Finalized)] example_processor)) = []"
proof -
  let ?evs = "[Deliver (example_event ''0xA'' Created Finalized),
           Deliver (example_event ''0xB'' Created Finalized),
           Deliver (example_event ''0xC'' ArchivalCreated Finalized),
           Deliver (example_event ''0xB'' Created Finalized)]"
  have h: "\<forall>ev \<in> set ?evs. \<forall>p. ev = Deliver p \<longrightarrow> orderId p \<noteq> []"
    by (simp add: example_event_def)
  have q: "priorityQueue (run ?evs example_processor) = [''0xB'']"
    by (simp add: pipeline_eval)
  have f: "inFlight (step (Complete example_world) (run ?evs example_processor)) =
       Some (example_event ''0xB'' Created Finalized)"
    by (simp add: pipeline_eval)
  from pipeline_reachable_invariant [OF h, of default_params Ethereum]
  have i: "pipeline_inv (run ?evs example_processor)"
    and n: "orderId (example_event ''0xB'' Created Finalized) \<notin>
       set (priorityQueue (step (Complete example_world) (run ?evs example_processor)))"
    using f by (simp_all only: example_processor_def) blast+
  from n have "priorityQueue (step (Complete example_world) (run ?evs example_processor)) = []"
    by (simp add: pipeline_eval)
  with i q f show ?thesis
    by blast
qed

text \<open>
  C2 as the spec states it fails. The order \<open>0xA\<close> is in flight when its
  \<^verbatim>\<open>Created\<close> event is delivered again, and is then in the priority queue and in the
  in-flight slot at once. And when \<open>0xA\<close> sits in the mempool (its balance check
  failed) and its \<^verbatim>\<open>Created\<close> event arrives while \<open>0xB\<close> is in flight, it is in the
  mempool and in the priority queue at once.
\<close>

theorem order_in_flight_and_queued_counterexample:
  "inFlight (run [Deliver (example_event ''0xA'' Created Finalized),
                  Deliver (example_event ''0xA'' Created Finalized)] example_processor) =
     Some (example_event ''0xA'' Created Finalized)
   \<and> ''0xA'' \<in> set (priorityQueue
       (run [Deliver (example_event ''0xA'' Created Finalized),
             Deliver (example_event ''0xA'' Created Finalized)] example_processor))
   \<and> mempoolService
       (run [Deliver (example_event ''0xA'' Created Finalized),
             Complete (example_world \<lparr> accountReserveBalance := Inr 50 \<rparr>),
             Deliver (example_event ''0xB'' Created Finalized),
             Deliver (example_event ''0xA'' Created Finalized)] example_processor) ''0xA'' =
       Some \<lparr> entry_params = example_event ''0xA'' Created Finalized, entry_delay = 60 \<rparr>
   \<and> ''0xA'' \<in> set (priorityQueue
       (run [Deliver (example_event ''0xA'' Created Finalized),
             Complete (example_world \<lparr> accountReserveBalance := Inr 50 \<rparr>),
             Deliver (example_event ''0xB'' Created Finalized),
             Deliver (example_event ''0xA'' Created Finalized)] example_processor))"
  by (simp add: run_def process_def tryProcess_def tryProcess_resume_def pickNextOrder_def
      set_first_def truthy_def processOrder_def processOrder_estimate_def addOrder_def
      mempool_addOrder_def attempts_count_def example_world_def example_event_def
      example_processor_def new_processor_def default_params_def set_add_def Let_def)

section \<open>Properties of process: terminal events\<close>

text \<open>
  C3, as the code has it. A \<^verbatim>\<open>Fulfilled\<close> event removes the order id from the priority
  queue, the secondary queue, the incoming-orders map and the mempool, and hands the
  order to the Batch Unlocker. A \<^verbatim>\<open>Cancelled\<close> event removes the id from the same four
  and hands nothing over. An \<^verbatim>\<open>ArchivalFulfilled\<close> event hands the order to the Batch
  Unlocker and leaves the queues, the map and the mempool as they are.
\<close>

theorem terminal_events_clear_queues:
  "(status p = Fulfilled \<longrightarrow>
      fst (process p st) = None \<and>
      orderId p \<notin> set (priorityQueue (snd (process p st))) \<and>
      orderId p \<notin> set (queue (snd (process p st))) \<and>
      incomingOrdersMap (snd (process p st)) (orderId p) = None \<and>
      mempoolService (snd (process p st)) (orderId p) = None \<and>
      batchUnlocker (snd (process p st)) = batchUnlocker st @ [UnlockOrder (orderId p)])
   \<and> (status p = Cancelled \<longrightarrow>
      fst (process p st) = None \<and>
      orderId p \<notin> set (priorityQueue (snd (process p st))) \<and>
      orderId p \<notin> set (queue (snd (process p st))) \<and>
      incomingOrdersMap (snd (process p st)) (orderId p) = None \<and>
      mempoolService (snd (process p st)) (orderId p) = None \<and>
      batchUnlocker (snd (process p st)) = batchUnlocker st)
   \<and> (status p = ArchivalFulfilled \<longrightarrow>
      fst (process p st) = None \<and>
      batchUnlocker (snd (process p st)) = batchUnlocker st @ [UnlockOrder (orderId p)] \<and>
      priorityQueue (snd (process p st)) = priorityQueue st \<and>
      queue (snd (process p st)) = queue st \<and>
      incomingOrdersMap (snd (process p st)) = incomingOrdersMap st \<and>
      mempoolService (snd (process p st)) = mempoolService st)"
  by (simp add: process_def clearInternalQueues_def set_delete_def mempool_delete_def Let_def)

theorem terminal_events_clear_queues_witness:
  "''0xA'' \<in> set (priorityQueue
      (run [Deliver (example_event ''0xB'' Created Finalized),
            Deliver (example_event ''0xA'' Created Finalized)] example_processor))
   \<and> ''0xA'' \<notin> set (priorityQueue
      (snd (process (example_event ''0xA'' Fulfilled Finalized)
         (run [Deliver (example_event ''0xB'' Created Finalized),
               Deliver (example_event ''0xA'' Created Finalized)] example_processor))))
   \<and> batchUnlocker
      (snd (process (example_event ''0xA'' Fulfilled Finalized)
         (run [Deliver (example_event ''0xB'' Created Finalized),
               Deliver (example_event ''0xA'' Created Finalized)] example_processor))) =
       [UnlockOrder ''0xA'']
   \<and> incomingOrdersMap
      (snd (process (example_event ''0xA'' Cancelled Finalized)
         (run [Deliver (example_event ''0xB'' Created Finalized),
               Deliver (example_event ''0xA'' Created Finalized)] example_processor))) ''0xA'' = None
   \<and> batchUnlocker
      (snd (process (example_event ''0xA'' ArchivalFulfilled Finalized)
         (run [Deliver (example_event ''0xB'' Created Finalized),
               Deliver (example_event ''0xA'' Created Finalized)] example_processor))) =
       [UnlockOrder ''0xA'']"
proof -
  let ?st = "run [Deliver (example_event ''0xB'' Created Finalized),
            Deliver (example_event ''0xA'' Created Finalized)] example_processor"
  have s: "status (example_event ''0xA'' Fulfilled Finalized) = Fulfilled"
    "status (example_event ''0xA'' Cancelled Finalized) = Cancelled"
    "status (example_event ''0xA'' ArchivalFulfilled Finalized) = ArchivalFulfilled"
    "orderId (example_event ''0xA'' t Finalized) = ''0xA''" for t
    by (simp_all add: example_event_def)
  have b: "batchUnlocker ?st = []" "''0xA'' \<in> set (priorityQueue ?st)"
    by (simp_all add: pipeline_eval)
  show ?thesis
    using terminal_events_clear_queues [of "example_event ''0xA'' Fulfilled Finalized" ?st]
      terminal_events_clear_queues [of "example_event ''0xA'' Cancelled Finalized" ?st]
      terminal_events_clear_queues [of "example_event ''0xA'' ArchivalFulfilled Finalized" ?st]
    by (simp only: s b) simp
qed

text \<open>
  C3 as the spec states it fails for \<^verbatim>\<open>ArchivalFulfilled\<close>: with \<open>0xB\<close> in flight and
  \<open>0xA\<close> postponed to the priority queue, the \<^verbatim>\<open>ArchivalFulfilled\<close> event of \<open>0xA\<close>
  hands it to the Batch Unlocker and leaves it in the priority queue and in the map.
\<close>

theorem archival_fulfilled_counterexample:
  "''0xA'' \<in> set (priorityQueue
     (run [Deliver (example_event ''0xB'' Created Finalized),
           Deliver (example_event ''0xA'' Created Finalized),
           Deliver (example_event ''0xA'' ArchivalFulfilled Finalized)] example_processor))
   \<and> incomingOrdersMap
       (run [Deliver (example_event ''0xB'' Created Finalized),
             Deliver (example_event ''0xA'' Created Finalized),
             Deliver (example_event ''0xA'' ArchivalFulfilled Finalized)] example_processor)
       ''0xA'' = Some (example_event ''0xA'' Created Finalized)
   \<and> batchUnlocker
       (run [Deliver (example_event ''0xB'' Created Finalized),
             Deliver (example_event ''0xA'' Created Finalized),
             Deliver (example_event ''0xA'' ArchivalFulfilled Finalized)] example_processor) =
       [UnlockOrder ''0xA'']"
  by (simp add: run_def process_def tryProcess_def example_event_def example_processor_def
      new_processor_def set_add_def)

section \<open>Properties of tryProcess: queues and the order of draining\<close>

text \<open>
  C5. While the lock is held, a delivered \<^verbatim>\<open>Created\<close> order is added to the priority
  queue and a delivered \<^verbatim>\<open>ArchivalCreated\<close> order to the secondary queue, and the order
  in flight stays. \<^verbatim>\<open>pickNextOrder\<close> takes the oldest id of the priority queue when that
  queue is not empty and the oldest id of the secondary queue otherwise (order ids are
  not empty: the executor refuses an event without one), and the id it returns is in
  neither queue afterwards. When the \<^verbatim>\<open>processOrder\<close> of the order in flight ends, the
  id picked from the released state takes the lock and the in-flight slot, in the state
  from which it was removed.
\<close>

theorem queues_and_drain_order:
  "(isLocked st \<and> status p = Created \<longrightarrow>
      fst (process p st) = None \<and>
      priorityQueue (snd (process p st)) = set_add (orderId p) (priorityQueue st) \<and>
      orderId p \<in> set (priorityQueue (snd (process p st))) \<and>
      queue (snd (process p st)) = queue st \<and>
      inFlight (snd (process p st)) = inFlight st)
   \<and> (isLocked st \<and> status p = ArchivalCreated \<longrightarrow>
      fst (process p st) = None \<and>
      queue (snd (process p st)) = set_add (orderId p) (queue st) \<and>
      orderId p \<in> set (queue (snd (process p st))) \<and>
      priorityQueue (snd (process p st)) = priorityQueue st \<and>
      inFlight (snd (process p st)) = inFlight st)
   \<and> ([] \<notin> set (priorityQueue st) \<union> set (queue st) \<longrightarrow>
      pickNextOrder st =
        (case priorityQueue st of
           x # xs \<Rightarrow> (Some x, st\<lparr> priorityQueue := set_delete x (priorityQueue st),
                                  queue := set_delete x (queue st) \<rparr>)
         | [] \<Rightarrow>
             (case queue st of
                y # ys \<Rightarrow> (Some y, st\<lparr> priorityQueue := set_delete y (priorityQueue st),
                                       queue := set_delete y (queue st) \<rparr>)
              | [] \<Rightarrow> (None, st))))
   \<and> (\<forall>n s. pickNextOrder st = (Some n, s) \<longrightarrow>
        n \<notin> set (priorityQueue s) \<and> n \<notin> set (queue s))
   \<and> (\<forall>p0 n s pn.
        inFlight st = Some p0 \<and>
        pickNextOrder ((snd (processOrder w p0 st)) \<lparr> isLocked := False, inFlight := None \<rparr>) =
          (Some n, s) \<and>
        incomingOrdersMap s n = Some pn \<longrightarrow>
        tryProcess_resume w st = s \<lparr> isLocked := True, inFlight := Some pn \<rparr>)"
proof -
  have a: "isLocked st \<and> status p = Created \<longrightarrow>
      fst (process p st) = None \<and>
      priorityQueue (snd (process p st)) = set_add (orderId p) (priorityQueue st) \<and>
      orderId p \<in> set (priorityQueue (snd (process p st))) \<and>
      queue (snd (process p st)) = queue st \<and>
      inFlight (snd (process p st)) = inFlight st"
    by (simp add: process_def tryProcess_def set_add_def)
  have b: "isLocked st \<and> status p = ArchivalCreated \<longrightarrow>
      fst (process p st) = None \<and>
      queue (snd (process p st)) = set_add (orderId p) (queue st) \<and>
      orderId p \<in> set (queue (snd (process p st))) \<and>
      priorityQueue (snd (process p st)) = priorityQueue st \<and>
      inFlight (snd (process p st)) = inFlight st"
    by (simp add: process_def tryProcess_def set_add_def)
  from a b pickNextOrder_nonempty [of st] pickNextOrder_removed [of st] resume_next [of st _ w]
  show ?thesis
    by blast
qed

theorem queues_and_drain_order_witness:
  "priorityQueue
     (snd (process (example_event ''0xB'' Created Finalized)
        (run [Deliver (example_event ''0xA'' Created Finalized)] example_processor))) = [''0xB'']
   \<and> queue
     (snd (process (example_event ''0xC'' ArchivalCreated Finalized)
        (run [Deliver (example_event ''0xA'' Created Finalized)] example_processor))) = [''0xC'']
   \<and> fst (pickNextOrder
       (run [Deliver (example_event ''0xA'' Created Finalized),
             Deliver (example_event ''0xC'' ArchivalCreated Finalized),
             Deliver (example_event ''0xB'' Created Finalized)] example_processor)) = Some ''0xB''"
proof -
  let ?st = "run [Deliver (example_event ''0xA'' Created Finalized)] example_processor"
  let ?st2 = "run [Deliver (example_event ''0xA'' Created Finalized),
             Deliver (example_event ''0xC'' ArchivalCreated Finalized),
             Deliver (example_event ''0xB'' Created Finalized)] example_processor"
  have s: "isLocked ?st" "priorityQueue ?st = []" "queue ?st = []"
    "status (example_event ''0xB'' Created Finalized) = Created"
    "status (example_event ''0xC'' ArchivalCreated Finalized) = ArchivalCreated"
    "orderId (example_event ''0xB'' Created Finalized) = ''0xB''"
    "orderId (example_event ''0xC'' ArchivalCreated Finalized) = ''0xC''"
    by (simp_all add: pipeline_eval)
  have q: "priorityQueue ?st2 = [''0xB'']" "queue ?st2 = [''0xC'']"
    by (simp_all add: pipeline_eval)
  have a: "priorityQueue (snd (process (example_event ''0xB'' Created Finalized) ?st)) = [''0xB'']"
    using queues_and_drain_order [of ?st "example_event ''0xB'' Created Finalized" example_world]
    by (simp only: s) (simp add: set_add_def)
  have b: "queue (snd (process (example_event ''0xC'' ArchivalCreated Finalized) ?st)) = [''0xC'']"
    using queues_and_drain_order [of ?st "example_event ''0xC'' ArchivalCreated Finalized" example_world]
    by (simp only: s) (simp add: set_add_def)
  have c: "fst (pickNextOrder ?st2) = Some ''0xB''"
    using queues_and_drain_order [of ?st2 "example_event ''0xB'' Created Finalized" example_world]
    by (simp only: q) simp
  from a b c show ?thesis
    by blast
qed

section \<open>Properties of tryProcess: exceptions of processOrder\<close>

text \<open>
  C6. When the \<^verbatim>\<open>processOrder\<close> of the order in flight ends, by a return or by an
  exception, \<^verbatim>\<open>tryProcess\<close> goes on in the same way: the lock is released, the next
  order is picked from the queues, and when there is one with its record in the map it
  takes the lock and the in-flight slot; when there is none the lock stays free. So the
  lock is held afterwards only for a new order in flight. An exception leaves the queues,
  the map, the mempool and the Batch Unlocker as they were.
\<close>

theorem errors_release_the_lock:
  assumes "inFlight st = Some p"
  shows
    "tryProcess_resume w st =
       (case fst (pickNextOrder ((snd (processOrder w p st))
                     \<lparr> isLocked := False, inFlight := None \<rparr>)) of
          None \<Rightarrow>
            snd (pickNextOrder ((snd (processOrder w p st))
                   \<lparr> isLocked := False, inFlight := None \<rparr>))
        | Some n \<Rightarrow>
            snd (tryProcess n
                   (snd (pickNextOrder ((snd (processOrder w p st))
                           \<lparr> isLocked := False, inFlight := None \<rparr>)))))
     \<and> (fst (pickNextOrder ((snd (processOrder w p st))
                \<lparr> isLocked := False, inFlight := None \<rparr>)) = None \<longrightarrow>
          \<not> isLocked (tryProcess_resume w st) \<and> inFlight (tryProcess_resume w st) = None)
     \<and> (\<forall>n s pn.
          pickNextOrder ((snd (processOrder w p st)) \<lparr> isLocked := False, inFlight := None \<rparr>) =
            (Some n, s) \<and>
          incomingOrdersMap s n = Some pn \<longrightarrow>
          tryProcess_resume w st = s \<lparr> isLocked := True, inFlight := Some pn \<rparr>)
     \<and> (isLocked (tryProcess_resume w st) \<longleftrightarrow> inFlight (tryProcess_resume w st) \<noteq> None)
     \<and> (\<forall>e. fst (processOrder w p st) = Some e \<longrightarrow>
          priorityQueue (snd (processOrder w p st)) = priorityQueue st \<and>
          queue (snd (processOrder w p st)) = queue st \<and>
          incomingOrdersMap (snd (processOrder w p st)) = incomingOrdersMap st \<and>
          mempoolService (snd (processOrder w p st)) = mempoolService st \<and>
          batchUnlocker (snd (processOrder w p st)) = batchUnlocker st)"
  using resume_unfold [OF assms, of w] resume_none [OF assms, of w] resume_next [OF assms, of w]
    resume_lock_iff [OF assms, of w] thrown_processOrder [of w p st] only_sent_fields [of st]
  by blast

theorem errors_release_the_lock_witness:
  "fst (processOrder (example_world \<lparr> takeOrderStatus := Inl ExternalFailure \<rparr>)
          (example_event ''0xA'' Created Finalized)
          (run [Deliver (example_event ''0xA'' Created Finalized),
                Deliver (example_event ''0xB'' Created Finalized)] example_processor)) =
     Some ExternalFailure
   \<and> inFlight
       (tryProcess_resume (example_world \<lparr> takeOrderStatus := Inl ExternalFailure \<rparr>)
          (run [Deliver (example_event ''0xA'' Created Finalized),
                Deliver (example_event ''0xB'' Created Finalized)] example_processor)) =
       Some (example_event ''0xB'' Created Finalized)
   \<and> \<not> isLocked
       (tryProcess_resume (example_world \<lparr> takeOrderStatus := Inl ExternalFailure \<rparr>)
          (run [Deliver (example_event ''0xA'' Created Finalized)] example_processor))"
proof -
  let ?w = "example_world \<lparr> takeOrderStatus := Inl ExternalFailure \<rparr>"
  let ?st = "run [Deliver (example_event ''0xA'' Created Finalized),
                Deliver (example_event ''0xB'' Created Finalized)] example_processor"
  let ?st1 = "run [Deliver (example_event ''0xA'' Created Finalized)] example_processor"
  have f: "inFlight ?st = Some (example_event ''0xA'' Created Finalized)"
    "inFlight ?st1 = Some (example_event ''0xA'' Created Finalized)"
    by (simp_all add: pipeline_eval)
  have e: "fst (processOrder ?w (example_event ''0xA'' Created Finalized) ?st) = Some ExternalFailure"
    by (simp add: processOrder_def example_world_def)
  have p: "pickNextOrder ((snd (processOrder ?w (example_event ''0xA'' Created Finalized) ?st))
              \<lparr> isLocked := False, inFlight := None \<rparr>) =
            (Some ''0xB'', (snd (processOrder ?w (example_event ''0xA'' Created Finalized) ?st))
              \<lparr> isLocked := False, inFlight := None, priorityQueue := [], queue := [] \<rparr>)"
    by (simp add: pipeline_eval)
  have m: "incomingOrdersMap ((snd (processOrder ?w (example_event ''0xA'' Created Finalized) ?st))
              \<lparr> isLocked := False, inFlight := None, priorityQueue := [], queue := [] \<rparr>) ''0xB'' =
            Some (example_event ''0xB'' Created Finalized)"
    by (simp add: pipeline_eval)
  have n: "fst (pickNextOrder ((snd (processOrder ?w (example_event ''0xA'' Created Finalized) ?st1))
              \<lparr> isLocked := False, inFlight := None \<rparr>)) = None"
    by (simp add: pipeline_eval)
  from errors_release_the_lock [OF f(1), of ?w] p m
  have "tryProcess_resume ?w ?st =
      (snd (processOrder ?w (example_event ''0xA'' Created Finalized) ?st))
        \<lparr> isLocked := False, inFlight := None, priorityQueue := [], queue := [] \<rparr>
        \<lparr> isLocked := True, inFlight := Some (example_event ''0xB'' Created Finalized) \<rparr>"
    by blast
  then have a: "inFlight (tryProcess_resume ?w ?st) = Some (example_event ''0xB'' Created Finalized)"
    by simp
  from errors_release_the_lock [OF f(2), of ?w] n
  have b: "\<not> isLocked (tryProcess_resume ?w ?st1)"
    by blast
  from e a b show ?thesis
    by blast
qed

end
